theory Spec2Isabelle
  imports Complex_Main "HOL-Library.List_Lexorder" "HOL-Library.Char_ord"
    "HOL-Library.Product_Lexorder" "HOL-Library.Multiset" "HOL-Library.Word"
begin

section \<open>Data model\<close>

text \<open>
  The pipeline of \<^verbatim>\<open>process_experiments.py\<close> works on pandas tables of floating-point
  numbers. A table cell is modelled as \<open>real option\<close>: \<open>Some x\<close> is the finite number
  \<open>x\<close> (floats are idealised as reals, so no rounding), \<open>None\<close> is the missing-value
  sentinel \<^verbatim>\<open>np.nan\<close>. Where numpy would yield a non-finite number (division by zero,
  logarithm of a non-positive number) the model also writes \<open>None\<close>; the infinities are
  not distinguished from NaN.

  A row index label (guide id) is a string. A table of two count columns is the list of its
  rows, each row carrying its label; labels are taken to be unique, as in the library table
  all columns are aligned to.
\<close>

type_synonym cell = "real option"

type_synonym guide = string

type_synonym series = "(guide \<times> cell) list"

type_synonym table2 = "(guide \<times> cell \<times> cell) list"

datatype error =
    ValueError string
  | KeyError string
  | IndexError
  | Exception string

text \<open>Comparisons of floats: every comparison with NaN is false, except \<^verbatim>\<open>!=\<close>.\<close>

fun lt :: "cell \<Rightarrow> cell \<Rightarrow> bool" where
  "lt (Some x) (Some y) = (x < y)"
| "lt _ _ = False"

fun le :: "cell \<Rightarrow> cell \<Rightarrow> bool" where
  "le (Some x) (Some y) = (x \<le> y)"
| "le _ _ = False"

fun ne :: "cell \<Rightarrow> cell \<Rightarrow> bool" where
  "ne (Some x) (Some y) = (x \<noteq> y)"
| "ne _ _ = True"

text \<open>
  Python's builtin \<^verbatim>\<open>min\<close> and \<^verbatim>\<open>max\<close> over a row of two values: the first value is
  kept unless the second is strictly smaller (\<^verbatim>\<open>min\<close>) or strictly greater (\<^verbatim>\<open>max\<close>).
\<close>

definition py_min2 :: "cell \<Rightarrow> cell \<Rightarrow> cell" where
  "py_min2 a b = (if lt b a then b else a)"

definition py_max2 :: "cell \<Rightarrow> cell \<Rightarrow> cell" where
  "py_max2 a b = (if lt a b then b else a)"

definition add_cell :: "cell \<Rightarrow> cell \<Rightarrow> cell" where
  "add_cell a b = (case (a, b) of (Some x, Some y) \<Rightarrow> Some (x + y) | _ \<Rightarrow> None)"

definition sub_cell :: "cell \<Rightarrow> cell \<Rightarrow> cell" where
  "sub_cell a b = (case (a, b) of (Some x, Some y) \<Rightarrow> Some (x - y) | _ \<Rightarrow> None)"

definition mul_cell :: "cell \<Rightarrow> cell \<Rightarrow> cell" where
  "mul_cell a b = (case (a, b) of (Some x, Some y) \<Rightarrow> Some (x * y) | _ \<Rightarrow> None)"

definition div_cell :: "cell \<Rightarrow> cell \<Rightarrow> cell" where
  "div_cell a b =
     (case (a, b) of
        (Some x, Some y) \<Rightarrow> if y = 0 then None else Some (x / y)
      | _ \<Rightarrow> None)"

definition log2_cell :: "cell \<Rightarrow> cell" where
  "log2_cell a = (case a of Some x \<Rightarrow> if 0 < x then Some (log 2 x) else None | None \<Rightarrow> None)"

text \<open>A table of plain counts, every cell present.\<close>

definition of_counts :: "(guide \<times> real \<times> real) list \<Rightarrow> table2" where
  "of_counts ct = map (\<lambda>(g, a, b). (g, Some a, Some b)) ct"

section \<open>Low-count filter\<close>

text \<open>
  \<^verbatim>\<open>filterLowCounts(countsColumns, filterType, filterThreshold)\<close>: the row predicate is
  applied to every row, then the rows where it holds are overwritten with NaN in a copy.
\<close>

definition mask_rows :: "(cell \<Rightarrow> cell \<Rightarrow> bool) \<Rightarrow> table2 \<Rightarrow> table2" where
  "mask_rows fail t = map (\<lambda>(g, a, b). if fail a b then (g, None, None) else (g, a, b)) t"

definition filterLowCounts :: "table2 \<Rightarrow> string \<Rightarrow> real \<Rightarrow> error + table2" where
  "filterLowCounts countsColumns filterType filterThreshold =
     (if filterType = ''both'' \<or> filterType = ''all'' then
        Inr (mask_rows (\<lambda>a b. lt (py_min2 a b) (Some filterThreshold)) countsColumns)
      else if filterType = ''either'' \<or> filterType = ''any'' then
        Inr (mask_rows (\<lambda>a b. lt (py_max2 a b) (Some filterThreshold)) countsColumns)
      else Inl (ValueError ''filter type not recognized or not implemented''))"

section \<open>Phenotype scores\<close>

text \<open>
  The first stage of \<^verbatim>\<open>computePhenotypeScore\<close>: the pseudocount policy applied to the
  two combined count columns (the source's \<^verbatim>\<open>combinedCountsPseudo\<close>).
\<close>

definition combinedCountsPseudo :: "string \<Rightarrow> real \<Rightarrow> table2 \<Rightarrow> error + table2" where
  "combinedCountsPseudo pseudocountBehavior pseudocountValue combinedCounts =
     (if pseudocountBehavior = ''default'' \<or> pseudocountBehavior = ''zeros only'' then
        Inr (map (\<lambda>(g, a, b).
               if ne (py_min2 a b) (Some 0) then (g, a, b)
               else (g, add_cell a (Some pseudocountValue), add_cell b (Some pseudocountValue)))
             combinedCounts)
      else if pseudocountBehavior = ''all values'' then
        Inr (map (\<lambda>(g, a, b).
               (g, add_cell a (Some pseudocountValue), add_cell b (Some pseudocountValue)))
             combinedCounts)
      else if pseudocountBehavior = ''filter out'' then
        Inr (mask_rows (\<lambda>a b. le (py_min2 a b) (Some 0)) combinedCounts)
      else Inl (ValueError ''Pseudocount behavior not recognized or not implemented''))"

text \<open>
  The library table: one row per guide id, with the columns the pipeline reads. The rows
  made up for pseudogenes have no sublibrary, which is NaN in the appended table.
\<close>

record lib_row =
  sublibrary :: "string option"
  gene :: string
  transcripts :: string
  sequence :: string

type_synonym library = "(guide \<times> lib_row) list"

definition lookup_cell :: "series \<Rightarrow> guide \<Rightarrow> cell" where
  "lookup_cell s g = (case map_of s g of Some v \<Rightarrow> v | None \<Rightarrow> None)"

text \<open>
  \<^verbatim>\<open>pd.concat([counts1, counts2], axis=1)\<close>: the two series side by side, joined on
  the row label; a label only one series has gets NaN in the other column. (pandas sorts
  the labels when the two indexes differ; the pipeline passes two columns of one table.)
\<close>

definition concat2 :: "series \<Rightarrow> series \<Rightarrow> table2" where
  "concat2 counts1 counts2 =
     map (\<lambda>(g, a). (g, a, lookup_cell counts2 g)) counts1 @
     map (\<lambda>(g, b). (g, None, b)) (filter (\<lambda>(g, b). g \<notin> fst ` set counts1) counts2)"

definition dropna :: "cell list \<Rightarrow> real list" where
  "dropna xs = map the (filter (\<lambda>x. x \<noteq> None) xs)"

text \<open>
  \<^verbatim>\<open>.sum()\<close> of a column skips NaN. (A column of NaN only sums to 0, or to NaN in older
  pandas; every score and total below is the same under both.)
\<close>

definition pd_sum :: "cell list \<Rightarrow> cell" where
  "pd_sum xs = Some (sum_list (dropna xs))"

text \<open>
  The median of a list of numbers: the middle element of the sorted list, or the mean of the
  two middle elements when the length is even.
\<close>

definition median :: "real list \<Rightarrow> real" where
  "median xs =
     (let s = sort xs; n = length s
      in if odd n then s ! (n div 2) else (s ! (n div 2 - 1) + s ! (n div 2)) / 2)"

text \<open>\<^verbatim>\<open>.median()\<close> of a column skips NaN and is NaN when nothing is left.\<close>

definition pd_median :: "cell list \<Rightarrow> cell" where
  "pd_median xs = (let ys = dropna xs in if ys = [] then None else Some (median ys))"

definition calcLog2e :: "cell \<times> cell \<Rightarrow> cell \<Rightarrow> cell \<Rightarrow> cell \<Rightarrow> cell" where
  "calcLog2e row countsRatio growthValue wtLog2E =
     div_cell (sub_cell (log2_cell (div_cell (mul_cell countsRatio (snd row)) (fst row))) wtLog2E)
       growthValue"

text \<open>
  The labels of \<^verbatim>\<open>libraryTable[libraryTable['gene'] == 'negative_control']\<close>.
\<close>

definition negative_control_ids :: "library \<Rightarrow> guide list" where
  "negative_control_ids libraryTable =
     map fst (filter (\<lambda>(g, r). gene r = ''negative_control'') libraryTable)"

text \<open>
  \<^verbatim>\<open>computePhenotypeScore\<close>. The inner join of \<^verbatim>\<open>align\<close> keeps the rows of the
  pseudocounted table whose label is a negative-control label of the library. When the join
  keeps no row, pandas' \<^verbatim>\<open>apply\<close> hands back an empty frame instead of an empty column
  and the source's result is no longer a column of scores; the model gives NaN scores then,
  and the properties below are stated for tables with a negative control.
\<close>

definition computePhenotypeScore ::
  "series \<Rightarrow> series \<Rightarrow> library \<Rightarrow> real \<Rightarrow> string \<Rightarrow> real \<Rightarrow> bool \<Rightarrow> error + series" where
  "computePhenotypeScore counts1 counts2 libraryTable growthValue
       pseudocountBehavior pseudocountValue normToNegs =
     (case combinedCountsPseudo pseudocountBehavior pseudocountValue (concat2 counts1 counts2) of
        Inl e \<Rightarrow> Inl e
      | Inr pseudo \<Rightarrow>
          let totalCounts0 = pd_sum (map (\<lambda>(g, a, b). a) pseudo);
              totalCounts1 = pd_sum (map (\<lambda>(g, a, b). b) pseudo);
              countsRatio = div_cell totalCounts0 totalCounts1;
              negCounts =
                (if normToNegs
                 then filter (\<lambda>(g, a, b). g \<in> set (negative_control_ids libraryTable)) pseudo
                 else pseudo);
              neglog2e =
                pd_median (map (\<lambda>(g, a, b). calcLog2e (a, b) countsRatio (Some 1) (Some 0))
                             negCounts)
          in Inr (map (\<lambda>(g, a, b). (g, calcLog2e (a, b) countsRatio (Some growthValue) neglog2e))
                    pseudo))"


section \<open>Python's list sort\<close>

text \<open>
  \<^verbatim>\<open>sorted\<close> compares with \<^verbatim>\<open><\<close> only. CPython's list sort first takes the run the list
  starts with (non-descending, or strictly descending and then reversed), and, for a list
  of fewer than 64 elements, inserts every further element into that run by binary search.
  When \<^verbatim>\<open><\<close> is a total preorder on the elements the result is the stable sort whatever
  the length; with NaN among the keys, where every comparison is false, the result is what
  these steps produce. The functions below are that algorithm, over any comparison \<open>islt\<close>.
\<close>

fun split_run :: "('a \<Rightarrow> 'a \<Rightarrow> bool) \<Rightarrow> 'a \<Rightarrow> 'a list \<Rightarrow> 'a list \<times> 'a list" where
  "split_run continue prev [] = ([], [])"
| "split_run continue prev (x # xs) =
     (if continue x prev
      then (case split_run continue x xs of (run, rest) \<Rightarrow> (x # run, rest))
      else ([], x # xs))"

fun count_run :: "('a \<Rightarrow> 'a \<Rightarrow> bool) \<Rightarrow> 'a list \<Rightarrow> 'a list \<times> 'a list" where
  "count_run islt (x0 # x1 # xs) =
     (if islt x1 x0
      then (case split_run (\<lambda>x prev. islt x prev) x1 xs of
              (run, rest) \<Rightarrow> (rev (x0 # x1 # run), rest))
      else (case split_run (\<lambda>x prev. \<not> islt x prev) x1 xs of
              (run, rest) \<Rightarrow> (x0 # x1 # run, rest)))"
| "count_run islt xs = (xs, [])"

function bisect :: "('a \<Rightarrow> 'a \<Rightarrow> bool) \<Rightarrow> 'a \<Rightarrow> 'a list \<Rightarrow> nat \<Rightarrow> nat \<Rightarrow> nat" where
  "bisect islt pivot xs l r =
     (if l < r
      then (let p = l + (r - l) div 2
            in if islt pivot (xs ! p) then bisect islt pivot xs l p
               else bisect islt pivot xs (p + 1) r)
      else l)"
  by pat_completeness auto
termination
  by (relation "measure (\<lambda>(islt, pivot, xs, l, r). r - l)") auto

declare bisect.simps [simp del]

definition binary_insert :: "('a \<Rightarrow> 'a \<Rightarrow> bool) \<Rightarrow> 'a \<Rightarrow> 'a list \<Rightarrow> 'a list" where
  "binary_insert islt pivot run =
     (let l = bisect islt pivot run 0 (length run) in take l run @ pivot # drop l run)"

definition binarysort :: "('a \<Rightarrow> 'a \<Rightarrow> bool) \<Rightarrow> 'a list \<Rightarrow> 'a list \<Rightarrow> 'a list" where
  "binarysort islt run rest = fold (binary_insert islt) rest run"

definition py_sort :: "('a \<Rightarrow> 'a \<Rightarrow> bool) \<Rightarrow> 'a list \<Rightarrow> 'a list" where
  "py_sort islt xs = (case count_run islt xs of (run, rest) \<Rightarrow> binarysort islt run rest)"

text \<open>
  \<^verbatim>\<open>sorted(xs, key=abs, reverse=True)\<close>: with \<^verbatim>\<open>reverse\<close> the list is reversed, sorted
  ascending by key, and reversed again.
\<close>

definition sorted_abs_reverse :: "('a \<Rightarrow> 'a \<Rightarrow> bool) \<Rightarrow> 'a list \<Rightarrow> 'a list" where
  "sorted_abs_reverse less_abs xs = rev (py_sort less_abs (rev xs))"

definition less_abs_real :: "real \<Rightarrow> real \<Rightarrow> bool" where
  "less_abs_real a b = (\<bar>a\<bar> < \<bar>b\<bar>)"

definition less_abs_cell :: "cell \<Rightarrow> cell \<Rightarrow> bool" where
  "less_abs_cell a b = lt (map_option abs a) (map_option abs b)"

text \<open>Python indexing: a negative index counts from the end.\<close>

definition py_index :: "'a list \<Rightarrow> int \<Rightarrow> error + 'a" where
  "py_index xs i =
     (if 0 \<le> i \<and> i < int (length xs) then Inr (xs ! nat i)
      else if i < 0 \<and> - int (length xs) \<le> i then Inr (xs ! nat (int (length xs) + i))
      else Inl IndexError)"

text \<open>The format \<^verbatim>\<open>%d\<close>.\<close>

fun show_nat :: "nat \<Rightarrow> string" where
  "show_nat n =
     (if n < 10 then [''0123456789'' ! n]
      else show_nat (n div 10) @ [''0123456789'' ! (n mod 10)])"

declare show_nat.simps [simp del]

definition show_int :: "int \<Rightarrow> string" where
  "show_int i = (if i < 0 then CHR ''-'' # show_nat (nat (- i)) else show_nat (nat i))"

section \<open>Gene scores\<close>

text \<open>
  A column of the phenotype table is named by (phenotype, replicate). A group is the part of
  the phenotype table that belongs to one gene (or one gene and transcript): for every
  column, the scores of the group's guides. The grouped table lists the groups by key.
\<close>

type_synonym colname = "string \<times> string"

type_synonym group = "(colname \<times> cell list) list"

record 'k analysis_result =
  stat_key :: string
  count_key :: string
  stat_rows :: "('k \<times> (colname \<times> cell) list) list"
  count_rows :: "('k \<times> (colname \<times> nat) list) list"

text \<open>
  What the pipeline takes from scipy: the minor version number, and the p-value
  \<^verbatim>\<open>stats.mannwhitneyu(x, y)[1]\<close>, called with or without \<^verbatim>\<open>alternative='two-sided'\<close>;
  the call may raise.
\<close>

record scipy =
  minor_version :: nat
  mannwhitneyu :: "real list \<Rightarrow> real list \<Rightarrow> bool \<Rightarrow> error + cell"

text \<open>Running a function that may raise over a list: the first error ends the run.\<close>

fun traverse :: "('a \<Rightarrow> error + 'b) \<Rightarrow> 'a list \<Rightarrow> error + 'b list" where
  "traverse f [] = Inr []"
| "traverse f (x # xs) =
     (case f x of
        Inl e \<Rightarrow> Inl e
      | Inr y \<Rightarrow> (case traverse f xs of Inl e \<Rightarrow> Inl e | Inr ys \<Rightarrow> Inr (y # ys)))"

definition mean :: "real list \<Rightarrow> real" where
  "mean xs = sum_list xs / real (length xs)"

text \<open>\<^verbatim>\<open>groupby.aggregate(np.mean)\<close> skips NaN; \<^verbatim>\<open>groupby.count()\<close> counts what is not NaN.\<close>

definition mean_skipna :: "cell list \<Rightarrow> cell" where
  "mean_skipna column = (let v = dropna column in if v = [] then None else Some (mean v))"

definition count_valid :: "cell list \<Rightarrow> nat" where
  "count_valid column = length (dropna column)"

definition group_counts :: "('k \<times> group) list \<Rightarrow> ('k \<times> (colname \<times> nat) list) list" where
  "group_counts groupedPhenotypeTable =
     map (\<lambda>(k, g). (k, map (\<lambda>(c, column). (c, count_valid column)) g)) groupedPhenotypeTable"

text \<open>
  \<^verbatim>\<open>averageBestN\<close>: the scores the mean is taken of, and the mean, for one column and for
  the columns of a group.
\<close>

definition bestN :: "cell list \<Rightarrow> int \<Rightarrow> real list" where
  "bestN column numToAverage =
     take (nat numToAverage) (sorted_abs_reverse less_abs_real (dropna column))"

definition averageBestN_column :: "cell list \<Rightarrow> int \<Rightarrow> cell" where
  "averageBestN_column column numToAverage =
     (if length (dropna column) > 0 then Some (mean (bestN column numToAverage)) else None)"

definition averageBestN :: "group \<Rightarrow> int \<Rightarrow> (colname \<times> cell) list" where
  "averageBestN g numToAverage = map (\<lambda>(c, column). (c, averageBestN_column column numToAverage)) g"

text \<open>\<^verbatim>\<open>applyMW\<close>, for one column and for the columns of a group.\<close>

definition applyMW_column ::
  "scipy \<Rightarrow> (colname \<times> cell list) list \<Rightarrow> colname \<times> cell list \<Rightarrow> error + colname \<times> cell" where
  "applyMW_column sp negativeTable nc =
     (case nc of (name, column) \<Rightarrow>
        if length (dropna column) > 0 then
          (case map_of negativeTable name of
             None \<Rightarrow> Inl (KeyError (fst name @ '', '' @ snd name))
           | Some neg \<Rightarrow>
               if minor_version sp \<ge> 17 then
                 (case mannwhitneyu sp (dropna column) (dropna neg) True of
                    Inl e \<Rightarrow> Inl e | Inr p \<Rightarrow> Inr (name, p))
               else
                 (case mannwhitneyu sp (dropna column) (dropna neg) False of
                    Inl e \<Rightarrow> Inl e | Inr p \<Rightarrow> Inr (name, mul_cell p (Some 2))))
        else Inr (name, None))"

definition applyMW ::
  "scipy \<Rightarrow> group \<Rightarrow> (colname \<times> cell list) list \<Rightarrow> error + (colname \<times> cell) list" where
  "applyMW sp g negativeTable = traverse (applyMW_column sp negativeTable) g"

text \<open>The aggregation function of \<^verbatim>\<open>calculate_nth\<close>, for one column of a group.\<close>

definition nth_best :: "int \<Rightarrow> cell list \<Rightarrow> error + cell" where
  "nth_best nth' x =
     (if nth' \<le> int (length x) then py_index (sorted_abs_reverse less_abs_cell x) (nth' - 1)
      else Inr None)"

definition per_group ::
  "('g \<Rightarrow> error + 'r) \<Rightarrow> ('k \<times> 'g) list \<Rightarrow> error + ('k \<times> 'r) list" where
  "per_group f groups =
     traverse (\<lambda>(k, g). case f g of Inl e \<Rightarrow> Inl e | Inr r \<Rightarrow> Inr (k, r)) groups"

definition applyGeneScoreFunction ::
  "scipy \<Rightarrow> ('k \<times> group) list \<Rightarrow> (colname \<times> cell list) list \<Rightarrow> string \<Rightarrow> int list
     \<Rightarrow> error + 'k analysis_result" where
  "applyGeneScoreFunction sp groupedPhenotypeTable negativeTable analysis analysisParamList =
     (if analysis = ''calculate_ave'' then
        (case analysisParamList of
           [] \<Rightarrow> Inl IndexError
         | numToAverage # _ \<Rightarrow>
             if numToAverage \<le> 0 then
               Inr \<lparr>stat_key = ''average of all phenotypes'',
                    count_key = ''average of all phenotypes_sgRNAcount'',
                    stat_rows = map (\<lambda>(k, g). (k, map (\<lambda>(c, column). (c, mean_skipna column)) g))
                                  groupedPhenotypeTable,
                    count_rows = group_counts groupedPhenotypeTable\<rparr>
             else
               Inr \<lparr>stat_key = ''average phenotype of strongest '' @ show_int numToAverage,
                    count_key = ''sgRNA count_avg'',
                    stat_rows = map (\<lambda>(k, g). (k, averageBestN g numToAverage))
                                  groupedPhenotypeTable,
                    count_rows = group_counts groupedPhenotypeTable\<rparr>)
      else if analysis = ''calculate_mw'' then
        (case per_group (\<lambda>g. applyMW sp g negativeTable) groupedPhenotypeTable of
           Inl e \<Rightarrow> Inl e
         | Inr pvals \<Rightarrow>
             Inr \<lparr>stat_key = ''Mann-Whitney p-value'', count_key = ''sgRNA count_MW'',
                  stat_rows = pvals, count_rows = group_counts groupedPhenotypeTable\<rparr>)
      else if analysis = ''calculate_nth'' then
        (case analysisParamList of
           [] \<Rightarrow> Inl IndexError
         | nth' # _ \<Rightarrow>
             (case per_group
                     (traverse (\<lambda>(c, x). case nth_best nth' x of
                                            Inl e \<Rightarrow> Inl e | Inr v \<Rightarrow> Inr (c, v)))
                     groupedPhenotypeTable of
                Inl e \<Rightarrow> Inl e
              | Inr pvals \<Rightarrow>
                  Inr \<lparr>stat_key = show_int nth' @ ''th best score'',
                       count_key = ''sgRNA count_nth best'',
                       stat_rows = pvals, count_rows = group_counts groupedPhenotypeTable\<rparr>))
      else Inl (ValueError (''Analysis '' @ analysis @ '' not recognized or not implemented'')))"


section \<open>Loading and merging counts\<close>

text \<open>
  A raw count is a numpy \<^verbatim>\<open>int64\<close>: a 64-bit word, read as a signed number, whose sums
  wrap around. A column of counts lists the count of every row label.
\<close>

type_synonym count = "64 word"

type_synonym counts_column = "(guide \<times> count) list"

type_synonym exptkey = "string \<times> string \<times> string"

text \<open>
  The count a column has at a label, the first one when the label comes twice
  (\<^verbatim>\<open>drop_duplicates('id')\<close>), and 0 where the label is absent (\<^verbatim>\<open>fill_value=0\<close>).
\<close>

definition count_at :: "(guide \<times> count) list \<Rightarrow> guide \<Rightarrow> count" where
  "count_at countSeries g = (case map_of countSeries g of Some c \<Rightarrow> c | None \<Rightarrow> 0)"

text \<open>
  \<^verbatim>\<open>libraryTable[sublibColumn].align(countSeries, axis=0, join='left', fill_value=0)[1]\<close>:
  the counts of a file on the labels of the library table.
\<close>

definition align_left :: "guide list \<Rightarrow> (guide \<times> count) list \<Rightarrow> counts_column" where
  "align_left index countSeries = map (\<lambda>g. (g, count_at countSeries g)) index"

text \<open>
  The loop that fills \<^verbatim>\<open>columnDict\<close> and the table made of it. \<open>readCountsFile\<close> is what
  the counts file of a given name holds. The triples are visited in sorted order, and a
  triple met twice raises.
\<close>

definition loadCounts ::
  "(string \<Rightarrow> (guide \<times> count) list) \<Rightarrow> guide list \<Rightarrow> exptkey list
     \<Rightarrow> error + (exptkey \<times> counts_column) list" where
  "loadCounts readCountsFile index counts_file_list =
     (if distinct counts_file_list then
        Inr (map (\<lambda>(c, r, f). ((c, r, f), align_left index (readCountsFile f)))
               (sort counts_file_list))
      else Inl (Exception ''condition, replicate, and count file combination already assigned''))"

text \<open>\<^verbatim>\<open>.sum(axis=0)\<close> and \<^verbatim>\<open>.sum()\<close>: the total of every column, in \<^verbatim>\<open>int64\<close>.\<close>

definition column_totals :: "('k \<times> counts_column) list \<Rightarrow> ('k \<times> count) list" where
  "column_totals t = map (\<lambda>(k, s). (k, sum_list (map snd s))) t"

text \<open>The row labels of a table: those of its columns, which all have the same.\<close>

definition table_index :: "('k \<times> counts_column) list \<Rightarrow> guide list" where
  "table_index t = (case t of [] \<Rightarrow> [] | (k, s) # _ \<Rightarrow> map fst s)"

text \<open>
  \<^verbatim>\<open>countsTable.groupby(level=[0, 1], axis=1)\<close>: the columns, keyed by (condition,
  replicate, counts file), grouped by (condition, replicate), the groups in sorted order;
  \<^verbatim>\<open>exptGroups.aggregate(np.sum)\<close> adds the columns of a group row by row.
\<close>

definition exptGroups ::
  "(exptkey \<times> 'c) list \<Rightarrow> ((string \<times> string) \<times> (exptkey \<times> 'c) list) list" where
  "exptGroups countsTable =
     map (\<lambda>k2. (k2, filter (\<lambda>((c, r, f), s). (c, r) = k2) countsTable))
       (sort (remdups (map (\<lambda>((c, r, f), s). (c, r)) countsTable)))"

definition mergedCountsTable ::
  "(exptkey \<times> counts_column) list \<Rightarrow> ((string \<times> string) \<times> counts_column) list" where
  "mergedCountsTable countsTable =
     map (\<lambda>(k2, cols).
            (k2, map (\<lambda>g. (g, sum_list (map (\<lambda>(k, s). count_at s g) cols)))
                   (table_index countsTable)))
       (exptGroups countsTable)"

section \<open>Averaging replicates\<close>

text \<open>
  A table built from a dict of columns, \<^verbatim>\<open>pd.DataFrame(phenotypeScoreDict)\<close>, is kept as
  the list of its named columns. Its row labels are the labels of its columns (all columns of
  the pipeline carry the labels of the library table), and a cell is looked up by label.
\<close>

definition frame_index :: "('k \<times> series) list \<Rightarrow> guide list" where
  "frame_index cols = remdups (concat (map (\<lambda>(k, s). map fst s) cols))"

text \<open>\<^verbatim>\<open>'_'.join(replicateList)\<close>.\<close>

fun join :: "string \<Rightarrow> string list \<Rightarrow> string" where
  "join sep [] = []"
| "join sep [x] = x"
| "join sep (x # y # ys) = x @ sep @ join sep (y # ys)"

text \<open>Assignment \<^verbatim>\<open>d[k] = v\<close> to a dict kept as a list of items.\<close>

fun dict_set :: "'k \<Rightarrow> 'v \<Rightarrow> ('k \<times> 'v) list \<Rightarrow> ('k \<times> 'v) list" where
  "dict_set k v [] = [(k, v)]"
| "dict_set k v ((k', v') # d) = (if k = k' then (k, v) # d else (k', v') # dict_set k v d)"

text \<open>
  \<^verbatim>\<open>repCols.mean(axis=1, skipna=False)\<close>: the mean of every row over the columns, NaN as
  soon as one value of the row is NaN.
\<close>

definition mean_noskip :: "cell list \<Rightarrow> cell" where
  "mean_noskip xs = (if xs = [] \<or> None \<in> set xs then None else Some (mean (map the xs)))"

definition row_means :: "('k \<times> series) list \<Rightarrow> series" where
  "row_means cols =
     map (\<lambda>g. (g, mean_noskip (map (\<lambda>(k, s). lookup_cell s g) cols))) (frame_index cols)"

definition repCols :: "string \<Rightarrow> (colname \<times> series) list \<Rightarrow> (colname \<times> series) list" where
  "repCols phenotype phenotypeScoreDict =
     filter (\<lambda>((phen, rep), col). phen = phenotype) phenotypeScoreDict"

text \<open>
  The replicate ids, \<^verbatim>\<open>sorted(list(set(zip(*counts_file_list)[1])))\<close>, and the phenotype
  names, \<^verbatim>\<open>list(set(zip(*condition_tuples)[0]))\<close>; indexing the transposition of an
  empty list raises. A Python set lists its elements once, in an order of its own; the model
  lists every phenotype once, in one such order.
\<close>

definition replicateList :: "exptkey list \<Rightarrow> error + string list" where
  "replicateList counts_file_list =
     (if counts_file_list = [] then Inl IndexError
      else Inr (sort (remdups (map (\<lambda>(c, r, f). r) counts_file_list))))"

definition phenotypeList :: "(string \<times> string \<times> string) list \<Rightarrow> error + string list" where
  "phenotypeList condition_tuples =
     (if condition_tuples = [] then Inl IndexError
      else Inr (remdups (map (\<lambda>(p, c1, c2). p) condition_tuples)))"

text \<open>
  The averaging step of \<^verbatim>\<open>processExperimentsFromConfig\<close>: with more than one replicate,
  every phenotype gets one more column, keyed by the phenotype and the label made of all
  replicate ids.
\<close>

definition averageReplicates ::
  "string list \<Rightarrow> string list \<Rightarrow> (colname \<times> series) list \<Rightarrow> (colname \<times> series) list" where
  "averageReplicates replicates phenotypes phenotypeScoreDict =
     (if length replicates > 1 then
        fold (\<lambda>phenotype d.
                dict_set (phenotype, ''ave_'' @ join ''_'' replicates)
                  (row_means (repCols phenotype d)) d)
          phenotypes phenotypeScoreDict
      else phenotypeScoreDict)"


section \<open>Pseudogenes\<close>

text \<open>
  The part of \<^verbatim>\<open>processExperimentsFromConfig\<close> that makes pseudogenes from the negative
  controls. The phenotype table is kept by rows here: the row label and one cell per column.
\<close>

type_synonym ptable = "(guide \<times> cell list) list"

record expt_parameters =
  generate_pseudogene_dist :: string
  analyses :: "(string \<times> int list) list"
  num_pseudogenes :: nat
  pseudogene_size :: nat

text \<open>\<^verbatim>\<open>str.lower()\<close> on ASCII.\<close>

definition lower_char :: "char \<Rightarrow> char" where
  "lower_char c =
     (case map_of (zip ''ABCDEFGHIJKLMNOPQRSTUVWXYZ'' ''abcdefghijklmnopqrstuvwxyz'') c of
        Some l \<Rightarrow> l
      | None \<Rightarrow> c)"

definition lower :: "string \<Rightarrow> string" where
  "lower str = map lower_char str"

text \<open>
  \<^verbatim>\<open>np.random.randint(0, high, n)\<close>: the random numbers are read off a stream \<open>rand\<close>
  from position \<open>pos\<close> on; with nothing to draw from, numpy raises.
\<close>

definition randint :: "(nat \<Rightarrow> nat) \<Rightarrow> nat \<Rightarrow> nat \<Rightarrow> nat \<Rightarrow> error + nat list" where
  "randint rand pos high n =
     (if high = 0 then Inl (ValueError ''low >= high'')
      else Inr (map (\<lambda>j. rand (pos + j) mod high) [0..<n]))"

text \<open>\<^verbatim>\<open>pd.concat\<close> of a list of tables, one under the other; it raises on the empty list.\<close>

definition pd_concat :: "'a list list \<Rightarrow> error + 'a list" where
  "pd_concat objs =
     (if objs = [] then Inl (ValueError ''No objects to concatenate'') else Inr (concat objs))"

text \<open>
  One pseudogene (or pseudo transcript): the rows of the negative table at the drawn
  indices under new labels, and the library rows that go with them.
\<close>

definition make_pseudo ::
  "ptable \<Rightarrow> nat list \<Rightarrow> string \<Rightarrow> string \<Rightarrow> string \<Rightarrow> ptable \<times> library" where
  "make_pseudo negTable randIndices numbers geneName transcriptName =
     (let n = length randIndices;
          pseudoTable = map (\<lambda>i. snd (negTable ! i)) randIndices;
          pseudoIndex = map (\<lambda>i. ''pseudo_'' @ numbers @ ''_'' @ show_nat i) [0..<n];
          pseudoSeqs = map (\<lambda>i. ''seq_'' @ numbers @ ''_'' @ show_nat i) [0..<n]
      in (zip pseudoIndex pseudoTable,
          map (\<lambda>i. (pseudoIndex ! i,
                     \<lparr>sublibrary = None, gene = geneName, transcripts = transcriptName,
                      sequence = pseudoSeqs ! i\<rparr>)) [0..<n]))"

fun manual_loop ::
  "(nat \<Rightarrow> nat) \<Rightarrow> ptable \<Rightarrow> nat \<Rightarrow> nat \<Rightarrow> nat list \<Rightarrow> error + ptable list \<times> library list" where
  "manual_loop rand negTable pseudogeneSize pos [] = Inr ([], [])"
| "manual_loop rand negTable pseudogeneSize pos (pseudogene # rest) =
     (case randint rand pos (length negTable) pseudogeneSize of
        Inl e \<Rightarrow> Inl e
      | Inr randIndices \<Rightarrow>
          (case manual_loop rand negTable pseudogeneSize (pos + pseudogeneSize) rest of
             Inl e \<Rightarrow> Inl e
           | Inr (tables, libs) \<Rightarrow>
               (case make_pseudo negTable randIndices (show_nat pseudogene)
                       (''pseudo_'' @ show_nat pseudogene) ''na'' of
                  (t, l) \<Rightarrow> Inr (t # tables, l # libs))))"

text \<open>\<^verbatim>\<open>drop_duplicates\<close> keeps the first row of every key; \<^verbatim>\<open>groupby\<close> sorts its groups.\<close>

fun drop_duplicates :: "('a \<Rightarrow> 'b) \<Rightarrow> 'b list \<Rightarrow> 'a list \<Rightarrow> 'a list" where
  "drop_duplicates key seen [] = []"
| "drop_duplicates key seen (x # xs) =
     (if key x \<in> set seen then drop_duplicates key seen xs
      else x # drop_duplicates key (key x # seen) xs)"

definition groupby :: "('a \<Rightarrow> string) \<Rightarrow> 'a list \<Rightarrow> (string \<times> 'a list) list" where
  "groupby key rows =
     map (\<lambda>k. (k, filter (\<lambda>r. key r = k) rows)) (sort (remdups (map key rows)))"

fun auto_transcripts ::
  "(nat \<Rightarrow> nat) \<Rightarrow> ptable \<Rightarrow> nat \<Rightarrow> nat \<Rightarrow> (nat \<times> string \<times> (guide \<times> lib_row) list) list
     \<Rightarrow> error + (ptable list \<times> library list) \<times> nat" where
  "auto_transcripts rand negTable pseudogene pos [] = Inr (([], []), pos)"
| "auto_transcripts rand negTable pseudogene pos ((transcript, transcriptName, transcriptGroup) # rest) =
     (case randint rand pos (length negTable) (length transcriptGroup) of
        Inl e \<Rightarrow> Inl e
      | Inr randIndices \<Rightarrow>
          (case auto_transcripts rand negTable pseudogene (pos + length transcriptGroup) rest of
             Inl e \<Rightarrow> Inl e
           | Inr ((tables, libs), pos') \<Rightarrow>
               (case make_pseudo negTable randIndices
                       (show_nat pseudogene @ ''_'' @ show_nat transcript)
                       (''pseudo_'' @ show_nat pseudogene)
                       (''pseudo_transcript_'' @ show_nat transcript) of
                  (t, l) \<Rightarrow> Inr ((t # tables, l # libs), pos'))))"

fun auto_genes ::
  "(nat \<Rightarrow> nat) \<Rightarrow> ptable \<Rightarrow> nat \<Rightarrow> (nat \<times> string \<times> (guide \<times> lib_row) list) list
     \<Rightarrow> error + ptable list \<times> library list" where
  "auto_genes rand negTable pos [] = Inr ([], [])"
| "auto_genes rand negTable pos ((pseudogene, geneName, grp) # rest) =
     (if geneName = ''negative_control'' then auto_genes rand negTable pos rest
      else
        (case auto_transcripts rand negTable pseudogene pos
                (map (\<lambda>(i, (name, g)). (i, name, g))
                   (enumerate 0 (groupby (\<lambda>(g, r). transcripts r) grp))) of
           Inl e \<Rightarrow> Inl e
         | Inr ((tables, libs), pos') \<Rightarrow>
             (case auto_genes rand negTable pos' rest of
                Inl e \<Rightarrow> Inl e
              | Inr (tables', libs') \<Rightarrow> Inr (tables @ tables', libs @ libs'))))"

text \<open>
  The stage: what it prints, and either the exception that ends the run or the phenotype
  table and the library table handed to the gene analysis.
\<close>

definition pseudogeneStage ::
  "expt_parameters \<Rightarrow> (nat \<Rightarrow> nat) \<Rightarrow> ptable \<Rightarrow> library
     \<Rightarrow> string list \<times> (error + ptable \<times> library)" where
  "pseudogeneStage exptParameters rand phenotypeTable libraryTable =
     (let negTable = filter (\<lambda>(g, row). g \<in> set (negative_control_ids libraryTable)) phenotypeTable
      in if generate_pseudogene_dist exptParameters \<noteq> ''off''
            \<and> length (analyses exptParameters) > 0 then
           (case (if lower (generate_pseudogene_dist exptParameters) = ''manual'' then
                    ([], manual_loop rand negTable (pseudogene_size exptParameters) 0
                           [0..<num_pseudogenes exptParameters])
                  else if lower (generate_pseudogene_dist exptParameters) = ''auto'' then
                    ([], auto_genes rand negTable 0
                           (map (\<lambda>(i, (name, g)). (i, name, g))
                              (enumerate 0
                                 (groupby (\<lambda>(g, r). gene r)
                                    (drop_duplicates (\<lambda>(g, r). (gene r, sequence r)) []
                                       libraryTable)))))
                  else
                    ([''generate_pseudogene_dist parameter not recognized, defaulting to off''],
                     Inr ([], []))) of
              (printed, built) \<Rightarrow>
                (''Generating a pseudogene distribution from negative controls'' # printed,
                 case built of
                   Inl e \<Rightarrow> Inl e
                 | Inr (pseudoTableList, pseudoLibTables) \<Rightarrow>
                     (case pd_concat pseudoTableList of
                        Inl e \<Rightarrow> Inl e
                      | Inr pseudoRows \<Rightarrow>
                          (case pd_concat pseudoLibTables of
                             Inl e \<Rightarrow> Inl e
                           | Inr pseudoLib \<Rightarrow>
                               Inr (phenotypeTable @ pseudoRows, libraryTable @ pseudoLib)))))
         else ([], Inr (phenotypeTable, libraryTable)))"


section \<open>Properties\<close>

lemma py_min2_Some [simp]: "py_min2 (Some a) (Some b) = Some (min a b)"
  by (simp add: py_min2_def min_def)

lemma py_max2_Some [simp]: "py_max2 (Some a) (Some b) = Some (max a b)"
  by (simp add: py_max2_def max_def)

text \<open>
  C2. Under the policy "zeros only" with pseudocount \<open>p\<close>, in every table, whatever its
  other rows hold, a row of two counts whose minimum is exactly 0 has \<open>p\<close> added to both
  counts, and every other row of two counts is left as it is; a row masked by the low-count
  filter stays masked. With \<open>p = 1\<close> the row (0, 5) becomes (1, 6) and the row (3, 5) is
  unchanged.
\<close>

theorem zeros_only_pseudocount:
  "(\<exists>t'. combinedCountsPseudo ''zeros only'' p t = Inr t' \<and> length t' = length t
        \<and> (\<forall>i < length t. \<forall>g a b.
              (t ! i = (g, Some a, Some b) \<longrightarrow>
                 t' ! i = (if min a b = 0 then (g, Some (a + p), Some (b + p))
                           else (g, Some a, Some b)))
            \<and> (t ! i = (g, None, None) \<longrightarrow> t' ! i = (g, None, None))))
   \<and> combinedCountsPseudo ''zeros only'' p (of_counts ct) =
     Inr (map (\<lambda>(g, a, b). if min a b = 0 then (g, Some (a + p), Some (b + p))
                            else (g, Some a, Some b)) ct)
   \<and> combinedCountsPseudo ''zeros only'' 1 [(g1, Some 0, Some 5), (g2, Some 3, Some 5)] =
     Inr [(g1, Some 1, Some 6), (g2, Some 3, Some 5)]"
proof -
  let ?f = "\<lambda>(g, a, b). if ne (py_min2 a b) (Some 0) then (g, a, b)
               else (g, add_cell a (Some p), add_cell b (Some p))"
  have r: "combinedCountsPseudo ''zeros only'' p t = Inr (map ?f t)"
    by (simp add: combinedCountsPseudo_def)
  have "\<forall>i < length t. \<forall>g a b.
              (t ! i = (g, Some a, Some b) \<longrightarrow>
                 map ?f t ! i = (if min a b = 0 then (g, Some (a + p), Some (b + p))
                           else (g, Some a, Some b)))
            \<and> (t ! i = (g, None, None) \<longrightarrow> map ?f t ! i = (g, None, None))"
    by (auto simp: add_cell_def py_min2_def)
  with r have rows: "\<exists>t'. combinedCountsPseudo ''zeros only'' p t = Inr t' \<and> length t' = length t
        \<and> (\<forall>i < length t. \<forall>g a b.
              (t ! i = (g, Some a, Some b) \<longrightarrow>
                 t' ! i = (if min a b = 0 then (g, Some (a + p), Some (b + p))
                           else (g, Some a, Some b)))
            \<and> (t ! i = (g, None, None) \<longrightarrow> t' ! i = (g, None, None)))"
    by (intro exI [of _ "map ?f t"]) simp
  have rest: "combinedCountsPseudo ''zeros only'' p (of_counts ct) =
     Inr (map (\<lambda>(g, a, b). if min a b = 0 then (g, Some (a + p), Some (b + p))
                            else (g, Some a, Some b)) ct)
   \<and> combinedCountsPseudo ''zeros only'' 1 [(g1, Some 0, Some 5), (g2, Some 3, Some 5)] =
     Inr [(g1, Some 1, Some 6), (g2, Some 3, Some 5)]"
    by (auto simp: combinedCountsPseudo_def of_counts_def add_cell_def)
  from rows rest show ?thesis by blast
qed

theorem zeros_only_pseudocount_witness:
  "\<exists>t'. combinedCountsPseudo ''zeros only'' (1/2)
          [(''g0'', None, None), (''g1'', Some 0, Some 5), (''g2'', Some 3, Some 5)] = Inr t'
      \<and> length t' = 3
      \<and> t' ! 0 = (''g0'', None, None)
      \<and> t' ! 1 = (''g1'', Some (1/2), Some (11/2))
      \<and> t' ! 2 = (''g2'', Some 3, Some 5)"
proof -
  let ?t = "[(''g0'', None, None), (''g1'', Some 0, Some 5), (''g2'', Some (3::real), Some (5::real))]"
  from zeros_only_pseudocount [of "1/2" ?t]
  obtain t' where t': "combinedCountsPseudo ''zeros only'' (1/2) ?t = Inr t'" "length t' = length ?t"
    and rows: "\<forall>i < length ?t. \<forall>g a b.
              (?t ! i = (g, Some a, Some b) \<longrightarrow>
                 t' ! i = (if min a b = 0 then (g, Some (a + 1/2), Some (b + 1/2))
                           else (g, Some a, Some b)))
            \<and> (?t ! i = (g, None, None) \<longrightarrow> t' ! i = (g, None, None))"
    by blast
  from rows [rule_format, of 0 "''g0''"] have r0: "t' ! 0 = (''g0'', None, None)" by simp
  from rows [rule_format, of 1 "''g1''" 0 5] have r1: "t' ! 1 = (''g1'', Some (1/2), Some (11/2))"
    by simp
  from rows [rule_format, of 2 "''g2''" 3 5] have r2: "t' ! 2 = (''g2'', Some 3, Some 5)"
    by simp
  from t' r0 r1 r2 show ?thesis by simp
qed

text \<open>
  C3. On a table of two count columns and a threshold \<open>T\<close>, the policies "all" and "both"
  mask exactly the rows whose minimum count is strictly below \<open>T\<close>, the policies "any" and
  "either" exactly the rows whose maximum count is strictly below \<open>T\<close>. A masked row has
  both cells replaced by the missing value; every other row is returned unchanged.
\<close>

theorem filterLowCounts_masks:
  "(ft = ''all'' \<or> ft = ''both'' \<longrightarrow>
      filterLowCounts (of_counts ct) ft T =
        Inr (map (\<lambda>(g, a, b). if min a b < T then (g, None, None)
                               else (g, Some a, Some b)) ct))
   \<and> (ft = ''any'' \<or> ft = ''either'' \<longrightarrow>
      filterLowCounts (of_counts ct) ft T =
        Inr (map (\<lambda>(g, a, b). if max a b < T then (g, None, None)
                               else (g, Some a, Some b)) ct))"
  by (auto simp: filterLowCounts_def mask_rows_def of_counts_def)

theorem filterLowCounts_masks_witness:
  "filterLowCounts (of_counts [(''g1'', 10, 60), (''g2'', 10, 20), (''g3'', 70, 80)]) ''both'' 50 =
     Inr [(''g1'', None, None), (''g2'', None, None), (''g3'', Some 70, Some 80)]
   \<and> filterLowCounts (of_counts [(''g1'', 10, 60), (''g2'', 10, 20), (''g3'', 70, 80)]) ''either'' 50 =
     Inr [(''g1'', Some 10, Some 60), (''g2'', None, None), (''g3'', Some 70, Some 80)]"
  using filterLowCounts_masks [of "''both''"
      "[(''g1'', 10, 60), (''g2'', 10, 20), (''g3'', 70, 80)]" 50]
    filterLowCounts_masks [of "''either''"
      "[(''g1'', 10, 60), (''g2'', 10, 20), (''g3'', 70, 80)]" 50]
  by simp

lemma dropna_Some [simp]: "dropna (map Some xs) = xs"
  by (induction xs) (auto simp: dropna_def)

lemma dropna_Some_comp [simp]: "dropna (map (Some \<circ> f) xs) = map f xs"
  using dropna_Some [of "map f xs"] by (simp del: dropna_Some)

lemma pd_median_Some: "xs \<noteq> [] \<Longrightarrow> pd_median (map Some xs) = Some (median xs)"
  by (simp add: pd_median_def)

lemma calcLog2e_Some:
  "0 < r * b / a \<Longrightarrow> a \<noteq> 0 \<Longrightarrow> g \<noteq> 0 \<Longrightarrow>
   calcLog2e (Some a, Some b) (Some r) (Some g) (Some w) = Some ((log 2 (r * b / a) - w) / g)"
  by (simp add: calcLog2e_def div_cell_def sub_cell_def mul_cell_def log2_cell_def)

lemma sum_list_pos_real: "xs \<noteq> [] \<Longrightarrow> \<forall>x \<in> set xs. (0::real) < x \<Longrightarrow> 0 < sum_list xs"
  by (induction xs) (auto intro: add_pos_nonneg sum_list_nonneg less_imp_le)

lemma of_counts_col1: "map (\<lambda>(g, a, b). a) (of_counts pcs) = map Some (map (\<lambda>(g, a, b). a) pcs)"
  by (simp add: of_counts_def case_prod_unfold comp_def)

lemma of_counts_col2: "map (\<lambda>(g, a, b). b) (of_counts pcs) = map Some (map (\<lambda>(g, a, b). b) pcs)"
  by (simp add: of_counts_def case_prod_unfold comp_def)

lemma of_counts_filter:
  "filter (\<lambda>(g, a, b). P g) (of_counts pcs) = of_counts (filter (\<lambda>(g, a, b). P g) pcs)"
  by (induction pcs) (auto simp: of_counts_def)

lemma of_counts_scores:
  assumes "\<forall>(g, a, b) \<in> set pcs. 0 < a \<and> 0 < b" and "0 < r" and "gv \<noteq> 0"
  shows "map (\<lambda>(g, a, b). f g (calcLog2e (a, b) (Some r) (Some gv) (Some w))) (of_counts pcs) =
         map (\<lambda>(g, a, b). f g (Some ((log 2 (r * b / a) - w) / gv))) pcs"
  using assms by (induction pcs) (auto simp: of_counts_def calcLog2e_Some)

text \<open>
  C1. When the pseudocounted count columns have only positive entries, the growth value
  \<open>gv\<close> is not zero, and the table has at least one negative-control guide,
  \<^verbatim>\<open>computePhenotypeScore\<close> returns for every guide the value
  \<open>(log2 (countsRatio * count2 / count1) - wtLog2E) / gv\<close>, where \<open>countsRatio\<close> is the sum of
  the pseudocounted first column divided by the sum of the pseudocounted second column, and
  \<open>wtLog2E\<close> is the median of \<open>log2 (countsRatio * count2 / count1)\<close> over the guides whose
  gene is \<^verbatim>\<open>negative_control\<close>.
\<close>

theorem computePhenotypeScore_formula:
  assumes pseudo: "combinedCountsPseudo behavior pcv (concat2 counts1 counts2) = Inr (of_counts pcs)"
    and pos: "\<forall>(g, a, b) \<in> set pcs. 0 < a \<and> 0 < b"
    and gv: "gv \<noteq> 0"
    and negs: "negs = filter (\<lambda>(g, a, b). g \<in> set (negative_control_ids lib)) pcs"
    and ne: "negs \<noteq> []"
    and ratio: "countsRatio = sum_list (map (\<lambda>(g, a, b). a) pcs) / sum_list (map (\<lambda>(g, a, b). b) pcs)"
    and wt: "wtLog2E = median (map (\<lambda>(g, a, b). log 2 (countsRatio * b / a)) negs)"
  shows "computePhenotypeScore counts1 counts2 lib gv behavior pcv True =
           Inr (map (\<lambda>(g, a, b). (g, Some ((log 2 (countsRatio * b / a) - wtLog2E) / gv))) pcs)"
proof -
  from ne negs have pcs_ne: "pcs \<noteq> []" by auto
  have s0: "0 < sum_list (map (\<lambda>(g, a, b). a) pcs)"
    using pcs_ne pos by (intro sum_list_pos_real) auto
  have s1: "0 < sum_list (map (\<lambda>(g, a, b). b) pcs)"
    using pcs_ne pos by (intro sum_list_pos_real) auto
  have rpos: "0 < countsRatio"
    using s0 s1 by (simp add: ratio)
  have r: "div_cell (pd_sum (map (\<lambda>(g, a, b). a) (of_counts pcs)))
             (pd_sum (map (\<lambda>(g, a, b). b) (of_counts pcs))) = Some countsRatio"
    using s1 by (simp add: of_counts_col1 of_counts_col2 pd_sum_def div_cell_def ratio)
  have negpos: "\<forall>(g, a, b) \<in> set negs. 0 < a \<and> 0 < b"
    using pos by (auto simp: negs)
  have "map (\<lambda>(g, a, b). calcLog2e (a, b) (Some countsRatio) (Some 1) (Some 0)) (of_counts negs) =
        map (\<lambda>(g, a, b). Some ((log 2 (countsRatio * b / a) - 0) / 1)) negs"
    using of_counts_scores [OF negpos rpos, of 1 "\<lambda>g c. c" 0] by simp
  also have "\<dots> = map Some (map (\<lambda>(g, a, b). log 2 (countsRatio * b / a)) negs)"
    by (simp add: case_prod_unfold comp_def)
  finally have med: "pd_median (map (\<lambda>(g, a, b). calcLog2e (a, b) (Some countsRatio) (Some 1) (Some 0))
                        (of_counts negs)) = Some wtLog2E"
    using ne by (simp add: pd_median_def wt)
  have sc: "map (\<lambda>(g, a, b). (g, calcLog2e (a, b) (Some countsRatio) (Some gv) (Some wtLog2E)))
              (of_counts pcs) =
            map (\<lambda>(g, a, b). (g, Some ((log 2 (countsRatio * b / a) - wtLog2E) / gv))) pcs"
    using of_counts_scores [OF pos rpos gv, of Pair wtLog2E] .
  show ?thesis
    unfolding computePhenotypeScore_def pseudo
    by (simp add: r of_counts_filter negs [symmetric] med sc Let_def)
qed


lemma log2_4: "log 2 (4::real) = 2"
  using log_pow_cancel [of 2 2] by simp

lemma log2_quarter: "log 2 (1/4::real) = -2"
  using log2_4 by (simp add: log_divide)

theorem computePhenotypeScore_formula_witness:
  "computePhenotypeScore
     [(''n1'', Some 2), (''g1'', Some 1), (''n2'', Some 3)]
     [(''n1'', Some 2), (''g1'', Some 4), (''n2'', Some 0)]
     [(''n1'', \<lparr>sublibrary = Some ''s'', gene = ''negative_control'', transcripts = ''na'', sequence = ''A''\<rparr>),
      (''g1'', \<lparr>sublibrary = Some ''s'', gene = ''GENE1'', transcripts = ''T1'', sequence = ''C''\<rparr>),
      (''n2'', \<lparr>sublibrary = Some ''s'', gene = ''negative_control'', transcripts = ''na'', sequence = ''G''\<rparr>)]
     2 ''zeros only'' 1 True =
   Inr [(''n1'', Some (1/2)), (''g1'', Some (3/2)), (''n2'', Some (-1/2))]"
proof -
  let ?c1 = "[(''n1'', Some 2), (''g1'', Some 1), (''n2'', Some (3::real))]"
  let ?c2 = "[(''n1'', Some 2), (''g1'', Some 4), (''n2'', Some (0::real))]"
  let ?lib = "[(''n1'', \<lparr>sublibrary = Some ''s'', gene = ''negative_control'', transcripts = ''na'', sequence = ''A''\<rparr>),
      (''g1'', \<lparr>sublibrary = Some ''s'', gene = ''GENE1'', transcripts = ''T1'', sequence = ''C''\<rparr>),
      (''n2'', \<lparr>sublibrary = Some ''s'', gene = ''negative_control'', transcripts = ''na'', sequence = ''G''\<rparr>)]"
  let ?pcs = "[(''n1'', 2, 2), (''g1'', 1, 4), (''n2'', 4, 1::real)] :: (guide \<times> real \<times> real) list"
  let ?negs = "[(''n1'', 2, 2), (''n2'', 4, 1::real)] :: (guide \<times> real \<times> real) list"
  have h1: "combinedCountsPseudo ''zeros only'' 1 (concat2 ?c1 ?c2) = Inr (of_counts ?pcs)"
    by (simp add: combinedCountsPseudo_def concat2_def lookup_cell_def of_counts_def
        py_min2_def add_cell_def)
  have h2: "\<forall>(g, a, b) \<in> set ?pcs. 0 < a \<and> 0 < b" by simp
  have h3: "(2::real) \<noteq> 0" by simp
  have h4: "?negs = filter (\<lambda>(g, a, b). g \<in> set (negative_control_ids ?lib)) ?pcs"
    by (simp add: negative_control_ids_def)
  have h5: "?negs \<noteq> []" by simp
  have h6: "(1::real) = sum_list (map (\<lambda>(g, a, b). a) ?pcs) / sum_list (map (\<lambda>(g, a, b). b) ?pcs)"
    by simp
  have h7: "(-1::real) = median (map (\<lambda>(g, a, b). log 2 (1 * b / a)) ?negs)"
    by (simp add: median_def log2_quarter)
  show ?thesis
    using computePhenotypeScore_formula [OF h1 h2 h3 h4 h5 h6 h7]
    by (simp add: log2_4 log2_quarter)
qed

subsection \<open>The list sort on a total preorder\<close>

lemma split_run_append: "split_run c p xs = (run, rest) \<Longrightarrow> run @ rest = xs"
  by (induction xs arbitrary: p run rest) (auto split: if_splits prod.splits)

lemma count_run_mset: "count_run islt xs = (run, rest) \<Longrightarrow> mset run + mset rest = mset xs"
proof (induction islt xs rule: count_run.induct)
  case (1 islt x0 x1 xs)
  then show ?case
    by (auto split: if_splits prod.splits dest!: split_run_append)
qed auto

lemma binary_insert_mset: "mset (binary_insert islt pivot run) = add_mset pivot (mset run)"
proof -
  have "mset (take l run @ pivot # drop l run) = add_mset pivot (mset (take l run @ drop l run))" for l
    by (simp del: append_take_drop_id)
  then show ?thesis
    by (simp add: binary_insert_def Let_def)
qed

lemma binarysort_mset: "mset (binarysort islt run rest) = mset run + mset rest"
  unfolding binarysort_def
  by (induction rest arbitrary: run) (auto simp: binary_insert_mset)

lemma py_sort_mset: "mset (py_sort islt xs) = mset xs"
  by (auto simp: py_sort_def binarysort_mset split: prod.splits dest: count_run_mset)

lemma split_run_asc:
  "split_run (\<lambda>x prev. \<not> k x < k prev) p xs = (run, rest) \<Longrightarrow> sorted (map k (p # run))"
  for k :: "'a \<Rightarrow> 'b::linorder"
proof (induction xs arbitrary: p run rest)
  case Nil
  then show ?case by simp
next
  case (Cons x xs)
  show ?case
  proof (cases "k x < k p")
    case True
    with Cons.prems show ?thesis by simp
  next
    case False
    then obtain run' where r: "split_run (\<lambda>x prev. \<not> k x < k prev) x xs = (run', rest)" "run = x # run'"
      using Cons.prems by (auto split: prod.splits)
    from Cons.IH [OF r(1)] have "sorted (map k (x # run'))" .
    with False r(2) show ?thesis by auto
  qed
qed

lemma split_run_desc:
  "split_run (\<lambda>x prev. k x < k prev) p xs = (run, rest) \<Longrightarrow> sorted_wrt (\<lambda>a b. k b < k a) (p # run)"
  for k :: "'a \<Rightarrow> 'b::linorder"
proof (induction xs arbitrary: p run rest)
  case Nil
  then show ?case by simp
next
  case (Cons x xs)
  show ?case
  proof (cases "k x < k p")
    case False
    with Cons.prems show ?thesis by simp
  next
    case True
    then obtain run' where r: "split_run (\<lambda>x prev. k x < k prev) x xs = (run', rest)" "run = x # run'"
      using Cons.prems by (auto split: prod.splits)
    from Cons.IH [OF r(1)] have "sorted_wrt (\<lambda>a b. k b < k a) (x # run')" .
    with True r(2) show ?thesis by auto
  qed
qed

lemma desc_rev_sorted:
  "sorted_wrt (\<lambda>a b. k b < k a) xs \<Longrightarrow> sorted (map k (rev xs))"
  for k :: "'a \<Rightarrow> 'b::linorder"
  by (induction xs) (auto simp: sorted_append less_imp_le)

lemma count_run_sorted:
  "count_run (\<lambda>a b. k a < k b) xs = (run, rest) \<Longrightarrow> sorted (map k run)"
  for k :: "'a \<Rightarrow> 'b::linorder"
proof (induction "\<lambda>a b. k a < k b" xs rule: count_run.induct)
  case (1 x0 x1 xs)
  show ?case
  proof (cases "k x1 < k x0")
    case True
    then obtain r where r: "split_run (\<lambda>x prev. k x < k prev) x1 xs = (r, rest)"
      "run = rev (x0 # x1 # r)"
      using 1 by (auto split: prod.splits)
    from split_run_desc [OF r(1)] True have "sorted_wrt (\<lambda>a b. k b < k a) (x0 # x1 # r)"
      by auto
    from desc_rev_sorted [OF this] r(2) show ?thesis by simp
  next
    case False
    then obtain r where r: "split_run (\<lambda>x prev. \<not> k x < k prev) x1 xs = (r, rest)"
      "run = x0 # x1 # r"
      using 1 by (auto split: prod.splits)
    from split_run_asc [OF r(1)] False r(2) show ?thesis by auto
  qed
qed auto

lemma bisect_spec:
  fixes k :: "'a \<Rightarrow> 'b::linorder"
  assumes "sorted (map k xs)" and "l \<le> r" and "r \<le> length xs"
    and "\<forall>i<l. k (xs ! i) \<le> k pivot"
    and "\<forall>i. r \<le> i \<and> i < length xs \<longrightarrow> k pivot < k (xs ! i)"
  shows "bisect (\<lambda>a b. k a < k b) pivot xs l r \<le> length xs
       \<and> (\<forall>i < bisect (\<lambda>a b. k a < k b) pivot xs l r. k (xs ! i) \<le> k pivot)
       \<and> (\<forall>i. bisect (\<lambda>a b. k a < k b) pivot xs l r \<le> i \<and> i < length xs \<longrightarrow> k pivot < k (xs ! i))"
  using assms
proof (induction "\<lambda>a b. k a < k b" pivot xs l r rule: bisect.induct)
  case (1 pivot xs l r)
  let ?p = "l + (r - l) div 2"
  note srt = "1.prems"(1) and lr = "1.prems"(2) and rlen = "1.prems"(3)
    and lo = "1.prems"(4) and hi = "1.prems"(5)
  have mono: "k (xs ! i) \<le> k (xs ! j)" if "i \<le> j" "j < length xs" for i j
    using srt that sorted_iff_nth_mono [of "map k xs"] by auto
  show ?case
  proof (cases "l < r")
    case False
    with lr have eq: "l = r" by simp
    have b: "bisect (\<lambda>a b. k a < k b) pivot xs l r = l"
      using False by (subst bisect.simps) simp
    show ?thesis unfolding b using eq rlen lo hi by blast
  next
    case True
    then have p: "l \<le> ?p" "?p < r" by auto
    show ?thesis
    proof (cases "k pivot < k (xs ! ?p)")
      case lt: True
      have hi': "\<forall>i. ?p \<le> i \<and> i < length xs \<longrightarrow> k pivot < k (xs ! i)"
        using mono lt by (meson less_le_trans)
      have plen: "?p \<le> length xs" using p(2) rlen by linarith
      have b: "bisect (\<lambda>a b. k a < k b) pivot xs l r = bisect (\<lambda>a b. k a < k b) pivot xs l ?p"
        using True lt by (subst bisect.simps) (simp add: Let_def)
      show ?thesis unfolding b
        by (rule "1.hyps"(1) [OF True refl lt srt p(1) plen lo hi'])
    next
      case ge: False
      have plen: "?p < length xs" using p(2) rlen by linarith
      have lo': "\<forall>i < ?p + 1. k (xs ! i) \<le> k pivot"
      proof (intro allI impI)
        fix i assume "i < ?p + 1"
        then have "i \<le> ?p" by simp
        from mono [OF this plen] ge show "k (xs ! i) \<le> k pivot" by simp
      qed
      have p1: "?p + 1 \<le> r" using p(2) by simp
      have b: "bisect (\<lambda>a b. k a < k b) pivot xs l r = bisect (\<lambda>a b. k a < k b) pivot xs (?p + 1) r"
        using True ge by (subst bisect.simps) (simp add: Let_def)
      show ?thesis unfolding b
        by (rule "1.hyps"(2) [OF True refl ge srt p1 rlen lo' hi])
    qed
  qed
qed


lemma binary_insert_sorted:
  fixes k :: "'a \<Rightarrow> 'b::linorder"
  assumes "sorted (map k run)"
  shows "sorted (map k (binary_insert (\<lambda>a b. k a < k b) pivot run))"
proof -
  let ?m = "bisect (\<lambda>a b. k a < k b) pivot run 0 (length run)"
  have top: "\<forall>i. length run \<le> i \<and> i < length run \<longrightarrow> k pivot < k (run ! i)"
    by auto
  have bot: "\<forall>i<0::nat. k (run ! i) \<le> k pivot"
    by auto
  from bisect_spec [OF assms le0 order_refl bot top]
  have m: "?m \<le> length run" "\<forall>i < ?m. k (run ! i) \<le> k pivot"
    "\<forall>i. ?m \<le> i \<and> i < length run \<longrightarrow> k pivot < k (run ! i)"
    by auto
  have "sorted (map k (take ?m run @ drop ?m run))" using assms by simp
  then have td: "sorted (map k (take ?m run))" "sorted (map k (drop ?m run))"
    "\<forall>x \<in> set (take ?m run). \<forall>y \<in> set (drop ?m run). k x \<le> k y"
    unfolding map_append sorted_append by auto
  have lo: "\<forall>x \<in> set (take ?m run). k x \<le> k pivot"
    using m(1,2) by (auto simp: in_set_conv_nth)
  have hi: "\<forall>y \<in> set (drop ?m run). k pivot \<le> k y"
  proof
    fix y assume "y \<in> set (drop ?m run)"
    then obtain j where j: "j < length run - ?m" "y = run ! (?m + j)"
      by (auto simp: in_set_conv_nth)
    then have "k pivot < k (run ! (?m + j))" using m(3) by auto
    with j show "k pivot \<le> k y" by simp
  qed
  have "sorted (map k (take ?m run @ pivot # drop ?m run))"
    unfolding map_append sorted_append using td lo hi by auto
  then show ?thesis by (simp add: binary_insert_def Let_def)
qed

lemma binarysort_sorted:
  fixes k :: "'a \<Rightarrow> 'b::linorder"
  shows "sorted (map k run) \<Longrightarrow> sorted (map k (binarysort (\<lambda>a b. k a < k b) run rest))"
  unfolding binarysort_def
  by (induction rest arbitrary: run) (auto intro: binary_insert_sorted)

lemma py_sort_sorted:
  fixes k :: "'a \<Rightarrow> 'b::linorder"
  shows "sorted (map k (py_sort (\<lambda>a b. k a < k b) xs))"
proof -
  obtain run rest where cr: "count_run (\<lambda>a b. k a < k b) xs = (run, rest)"
    by (cases "count_run (\<lambda>a b. k a < k b) xs")
  from count_run_sorted [OF cr] show ?thesis
    by (simp add: py_sort_def cr binarysort_sorted)
qed

lemma less_abs_real_key: "less_abs_real = (\<lambda>a b. \<bar>a\<bar> < \<bar>b\<bar>)"
  by (simp add: less_abs_real_def fun_eq_iff)

lemma sorted_abs_reverse_mset: "mset (sorted_abs_reverse islt xs) = mset xs"
  by (simp add: sorted_abs_reverse_def py_sort_mset)

lemma sorted_abs_reverse_desc:
  "sorted (map abs (rev (sorted_abs_reverse less_abs_real xs)))"
  unfolding sorted_abs_reverse_def less_abs_real_key rev_rev_ident
  by (rule py_sort_sorted)

lemma take_drop_desc:
  assumes "sorted (map abs (rev (ys :: real list)))"
  shows "\<forall>a \<in> set (take n ys). \<forall>b \<in> set (drop n ys). \<bar>b\<bar> \<le> \<bar>a\<bar>"
proof -
  have "rev ys = rev (drop n ys) @ rev (take n ys)"
    by (simp flip: rev_append)
  with assms have "sorted (map abs (rev (drop n ys)) @ map abs (rev (take n ys)))"
    by simp
  then show ?thesis unfolding sorted_append by auto
qed

lemma bestN_props:
  assumes "0 < N"
  shows "mset (bestN column N) \<subseteq># mset (dropna column)"
    and "length (bestN column N) = min (nat N) (length (dropna column))"
    and "\<forall>a \<in> set (bestN column N). \<forall>b \<in># mset (dropna column) - mset (bestN column N). \<bar>b\<bar> \<le> \<bar>a\<bar>"
proof -
  let ?ys = "sorted_abs_reverse less_abs_real (dropna column)"
  have ms: "mset (take (nat N) ?ys) + mset (drop (nat N) ?ys) = mset (dropna column)"
    by (simp add: sorted_abs_reverse_mset flip: mset_append)
  show "mset (bestN column N) \<subseteq># mset (dropna column)"
    unfolding bestN_def using ms by (metis mset_subset_eq_add_left)
  have "length ?ys = length (dropna column)"
    using sorted_abs_reverse_mset [of less_abs_real "dropna column"] by (metis size_mset)
  then show "length (bestN column N) = min (nat N) (length (dropna column))"
    by (simp add: bestN_def min_def)
  have "mset (dropna column) - mset (bestN column N) = mset (drop (nat N) ?ys)"
    unfolding bestN_def using ms by (metis add_diff_cancel_left')
  then show "\<forall>a \<in> set (bestN column N). \<forall>b \<in># mset (dropna column) - mset (bestN column N). \<bar>b\<bar> \<le> \<bar>a\<bar>"
    using take_drop_desc [OF sorted_abs_reverse_desc, of "nat N" "dropna column"]
    by (simp add: bestN_def)
qed

lemma dropna_all_None: "(\<forall>x \<in> set column. x = None) \<Longrightarrow> dropna column = []"
  by (induction column) (auto simp: dropna_def)

lemma show_nat_digit: "n < 10 \<Longrightarrow> show_nat n = [''0123456789'' ! n]"
  by (subst show_nat.simps) simp

text \<open>
  C6. The specification has \<^verbatim>\<open>calculate_nth\<close> return the score ranked Nth by absolute
  value, and a missing value when the group has fewer than N valid scores. The aggregation
  function sorts and measures the whole column, missing values included: on the column
  (NaN, 1.0), which has one valid score, N = 2 yields 1.0 where a missing value is specified,
  and N = 1 yields NaN where the score ranked first is 1.0.
\<close>

theorem calculate_nth_keeps_missing:
  "nth_best 2 [None, Some 1] = Inr (Some 1) \<and> nth_best 1 [None, Some 1] = Inr None"
  by (simp add: nth_best_def sorted_abs_reverse_def py_sort_def binarysort_def
      less_abs_cell_def py_index_def)

text \<open>
  C7. The specification has the count emitted with the score be the number of guides used
  in the average. For the scores (1, 2, 3) and N = 2 the two scores 3 and 2 are averaged, and
  the count emitted is 3.
\<close>

theorem calculate_ave_count_counterexample:
  "applyGeneScoreFunction \<lparr>minor_version = 17, mannwhitneyu = (\<lambda>x y a. Inr None)\<rparr>
     [(''G1'', [((''gamma'', ''Rep1''), [Some 1, Some 2, Some 3])])] [] ''calculate_ave'' [2] =
   Inr \<lparr>stat_key = ''average phenotype of strongest 2'', count_key = ''sgRNA count_avg'',
        stat_rows = [(''G1'', [((''gamma'', ''Rep1''), Some (5/2))])],
        count_rows = [(''G1'', [((''gamma'', ''Rep1''), 3)])]\<rparr>
   \<and> bestN [Some 1, Some 2, Some 3] 2 = [3, 2]"
proof -
  have b: "bestN [Some 1, Some 2, Some 3] 2 = [3, 2]"
    by (simp add: bestN_def dropna_def sorted_abs_reverse_def py_sort_def binarysort_def
        less_abs_real_def)
  have d: "dropna [Some 1, Some 2, Some 3] = [1, 2, 3]"
    by (simp add: dropna_def)
  show ?thesis
    by (simp add: applyGeneScoreFunction_def averageBestN_def averageBestN_column_def b d
        group_counts_def count_valid_def mean_def show_int_def show_nat_digit)
qed

text \<open>
  C7, amended. For N > 0, \<^verbatim>\<open>calculate_ave\<close> gives for every group and column the
  arithmetic mean of the chosen scores, and a missing value when the column has no valid
  score; next to it, it emits the number of valid scores of the column. The chosen scores are
  valid scores of the column, there are N of them or all when fewer than N are valid, and
  none of the scores left out has a greater absolute value than a chosen one.
\<close>

theorem calculate_ave_strongest:
  assumes "0 < N"
  shows "applyGeneScoreFunction sp groups neg ''calculate_ave'' (N # ps) =
           Inr \<lparr>stat_key = ''average phenotype of strongest '' @ show_int N,
                count_key = ''sgRNA count_avg'',
                stat_rows = map (\<lambda>(k, g). (k, map (\<lambda>(c, col).
                    (c, if dropna col \<noteq> [] then Some (mean (bestN col N)) else None)) g)) groups,
                count_rows = map (\<lambda>(k, g). (k, map (\<lambda>(c, col). (c, length (dropna col))) g)) groups\<rparr>
       \<and> mset (bestN column N) \<subseteq># mset (dropna column)
       \<and> length (bestN column N) = min (nat N) (length (dropna column))
       \<and> (\<forall>a \<in> set (bestN column N).
            \<forall>b \<in># mset (dropna column) - mset (bestN column N). \<bar>b\<bar> \<le> \<bar>a\<bar>)"
proof -
  have "applyGeneScoreFunction sp groups neg ''calculate_ave'' (N # ps) =
           Inr \<lparr>stat_key = ''average phenotype of strongest '' @ show_int N,
                count_key = ''sgRNA count_avg'',
                stat_rows = map (\<lambda>(k, g). (k, map (\<lambda>(c, col).
                    (c, if dropna col \<noteq> [] then Some (mean (bestN col N)) else None)) g)) groups,
                count_rows = map (\<lambda>(k, g). (k, map (\<lambda>(c, col). (c, length (dropna col))) g)) groups\<rparr>"
    using assms
    by (simp add: applyGeneScoreFunction_def averageBestN_def averageBestN_column_def
        group_counts_def count_valid_def)
  with bestN_props [OF assms, of column] show ?thesis by blast
qed

theorem calculate_ave_strongest_witness:
  "applyGeneScoreFunction \<lparr>minor_version = 17, mannwhitneyu = (\<lambda>x y a. Inr None)\<rparr>
     [(''G1'', [((''gamma'', ''Rep1''), [Some 1, None, Some (-3), Some 2])])] [] ''calculate_ave'' [2] =
   Inr \<lparr>stat_key = ''average phenotype of strongest 2'', count_key = ''sgRNA count_avg'',
        stat_rows = [(''G1'', [((''gamma'', ''Rep1''), Some (-1/2))])],
        count_rows = [(''G1'', [((''gamma'', ''Rep1''), 3)])]\<rparr>
   \<and> length (bestN [Some 1, None, Some (-3), Some 2] 2) = 2"
proof -
  have N: "(0::int) < 2" by simp
  have d: "dropna [Some 1, None, Some (-3), Some 2] = [1, -3, 2]"
    by (simp add: dropna_def)
  have b: "bestN [Some 1, None, Some (-3), Some 2] 2 = [-3, 2]"
    by (simp add: bestN_def d sorted_abs_reverse_def py_sort_def binarysort_def
        binary_insert_def less_abs_real_def bisect.simps)
  show ?thesis
    using calculate_ave_strongest [OF N, of "\<lparr>minor_version = 17, mannwhitneyu = (\<lambda>x y a. Inr None)\<rparr>"
        "[(''G1'', [((''gamma'', ''Rep1''), [Some 1, None, Some (-3), Some 2])])]" "[]" "[]"
        "[Some 1, None, Some (-3), Some 2]"]
    by (simp add: d b mean_def show_int_def show_nat_digit)
qed

text \<open>
  C9. For a column of a gene group with no valid score, \<^verbatim>\<open>calculate_mw\<close> gives a missing
  p-value and does not raise, whatever the Mann-Whitney routine and the negative table do; a
  group all of whose columns are so gets a missing p-value in every column.
\<close>

theorem applyMW_no_valid_scores:
  "((\<forall>x \<in> set column. x = None) \<longrightarrow>
      applyMW_column sp negativeTable (name, column) = Inr (name, None))
   \<and> ((\<forall>(c, col) \<in> set g. \<forall>x \<in> set col. x = None) \<longrightarrow>
      applyMW sp g negativeTable = Inr (map (\<lambda>(c, col). (c, None)) g))"
proof -
  have col: "applyMW_column sp negativeTable (name, column) = Inr (name, None)"
    if "\<forall>x \<in> set column. x = None" for name column
    using dropna_all_None [OF that] by (simp add: applyMW_column_def)
  have "applyMW sp g negativeTable = Inr (map (\<lambda>(c, col). (c, None)) g)"
    if "\<forall>(c, col) \<in> set g. \<forall>x \<in> set col. x = None"
    using that unfolding applyMW_def
  proof (induction g)
    case Nil
    then show ?case by simp
  next
    case (Cons nc g)
    obtain c column where nc: "nc = (c, column)" by (cases nc)
    with Cons.prems have "\<forall>x \<in> set column. x = None" by auto
    from col [OF this] Cons nc show ?case by simp
  qed
  with col show ?thesis by blast
qed

theorem applyMW_no_valid_scores_witness:
  "applyMW_column \<lparr>minor_version = 17, mannwhitneyu = (\<lambda>x y a. Inl (ValueError ''empty sample''))\<rparr>
     [] ((''gamma'', ''Rep1''), [None, None]) = Inr ((''gamma'', ''Rep1''), None)
   \<and> applyMW \<lparr>minor_version = 17, mannwhitneyu = (\<lambda>x y a. Inl (ValueError ''empty sample''))\<rparr>
     [((''gamma'', ''Rep1''), [None, None]), ((''gamma'', ''Rep2''), [None])] [] =
     Inr [((''gamma'', ''Rep1''), None), ((''gamma'', ''Rep2''), None)]"
  using applyMW_no_valid_scores [of "[None, None]"
      "\<lparr>minor_version = 17, mannwhitneyu = (\<lambda>x y a. Inl (ValueError ''empty sample''))\<rparr>"
      "[]" "(''gamma'', ''Rep1'')"
      "[((''gamma'', ''Rep1''), [None, None]), ((''gamma'', ''Rep2''), [None])]"]
  by simp

text \<open>
  C10. Each of the three dispatchers raises on a name it does not know:
  \<^verbatim>\<open>filterLowCounts\<close> for a filter type other than both, all, either, any;
  \<^verbatim>\<open>computePhenotypeScore\<close> for a pseudocount behavior other than default, zeros only,
  all values, filter out; \<^verbatim>\<open>applyGeneScoreFunction\<close> for an analysis other than
  calculate_ave, calculate_mw, calculate_nth.
\<close>

theorem unrecognized_names_raise:
  "(filterType \<notin> {''both'', ''all'', ''either'', ''any''} \<longrightarrow>
      filterLowCounts countsColumns filterType filterThreshold =
        Inl (ValueError ''filter type not recognized or not implemented''))
   \<and> (pseudocountBehavior \<notin> {''default'', ''zeros only'', ''all values'', ''filter out''} \<longrightarrow>
      computePhenotypeScore counts1 counts2 libraryTable growthValue
          pseudocountBehavior pseudocountValue normToNegs =
        Inl (ValueError ''Pseudocount behavior not recognized or not implemented''))
   \<and> (analysis \<notin> {''calculate_ave'', ''calculate_mw'', ''calculate_nth''} \<longrightarrow>
      applyGeneScoreFunction sp groupedPhenotypeTable negativeTable analysis analysisParamList =
        Inl (ValueError (''Analysis '' @ analysis @ '' not recognized or not implemented'')))"
  by (simp add: filterLowCounts_def computePhenotypeScore_def combinedCountsPseudo_def
      applyGeneScoreFunction_def)

theorem unrecognized_names_raise_witness:
  "filterLowCounts [(''g1'', Some 10, Some 60)] ''most'' 50 =
     Inl (ValueError ''filter type not recognized or not implemented'')
   \<and> computePhenotypeScore [(''g1'', Some 10)] [(''g1'', Some 60)] [] 1 ''ones only'' 1 True =
     Inl (ValueError ''Pseudocount behavior not recognized or not implemented'')
   \<and> applyGeneScoreFunction \<lparr>minor_version = 17, mannwhitneyu = (\<lambda>x y a. Inr None)\<rparr>
       [(''G1'', [((''gamma'', ''Rep1''), [Some 1])])] [] ''calculate_ks'' [3] =
     Inl (ValueError ''Analysis calculate_ks not recognized or not implemented'')"
  using unrecognized_names_raise [of "''most''" "[(''g1'', Some 10, Some 60)]" 50 "''ones only''"
      "[(''g1'', Some 10)]" "[(''g1'', Some 60)]" "[]" 1 1 True "''calculate_ks''"
      "\<lparr>minor_version = 17, mannwhitneyu = (\<lambda>x y a. Inr None)\<rparr>"
      "[(''G1'', [((''gamma'', ''Rep1''), [Some 1])])]" "[]" "[3]"]
  by simp

subsection \<open>Conservation of reads\<close>

lemma sum_list_swap:
  "(\<Sum>x\<leftarrow>xs. \<Sum>y\<leftarrow>ys. f x y) = (\<Sum>y\<leftarrow>ys. \<Sum>x\<leftarrow>xs. (f x y :: 'a::comm_monoid_add))"
  by (induction xs) (simp_all add: sum_list_addf)

lemma sum_list_filter_disj:
  "\<forall>x \<in> set xs. \<not> (P x \<and> Q x) \<Longrightarrow>
   sum_list (map f (filter (\<lambda>x. P x \<or> Q x) xs)) =
   sum_list (map f (filter P xs)) + (sum_list (map f (filter Q xs)) :: 'a::comm_monoid_add)"
  by (induction xs) (auto simp: ac_simps)

lemma sum_list_partition:
  "distinct ks \<Longrightarrow>
   (\<Sum>k2\<leftarrow>ks. sum_list (map f (filter (\<lambda>x. key x = k2) xs))) =
   (sum_list (map f (filter (\<lambda>x. key x \<in> set ks) xs)) :: 'a::comm_monoid_add)"
proof (induction ks)
  case Nil
  then show ?case by simp
next
  case (Cons a ks)
  have "sum_list (map f (filter (\<lambda>x. key x = a \<or> key x \<in> set ks) xs)) =
        sum_list (map f (filter (\<lambda>x. key x = a) xs)) + sum_list (map f (filter (\<lambda>x. key x \<in> set ks) xs))"
    using Cons.prems by (intro sum_list_filter_disj) auto
  with Cons show ?case by simp
qed

lemma sum_list_groups:
  fixes f :: "exptkey \<times> 'c \<Rightarrow> 'a::comm_monoid_add"
  shows "(\<Sum>(k2, cols)\<leftarrow>exptGroups t. sum_list (map f cols)) = sum_list (map f t)"
proof -
  let ?key = "\<lambda>x :: exptkey \<times> 'c. (fst (fst x), fst (snd (fst x)))"
  let ?ks = "sort (remdups (map ?key t))"
  have key: "(\<lambda>((c, r, f), s). (c, r)) = ?key"
    by (simp add: fun_eq_iff)
  have filt: "(\<lambda>((c, r, f), s). (c, r) = k2) = (\<lambda>x. ?key x = k2)" for k2
    by (simp add: fun_eq_iff)
  have "(\<Sum>(k2, cols)\<leftarrow>exptGroups t. sum_list (map f cols)) =
        (\<Sum>k2\<leftarrow>?ks. sum_list (map f (filter (\<lambda>x. ?key x = k2) t)))"
    by (simp add: exptGroups_def key filt comp_def)
  also have "\<dots> = sum_list (map f (filter (\<lambda>x. ?key x \<in> set ?ks) t))"
    by (rule sum_list_partition) simp
  also have "filter (\<lambda>x. ?key x \<in> set ?ks) t = t"
    by (simp add: filter_id_conv)
  finally show ?thesis .
qed

lemma exptGroups_subset: "(k2, cols) \<in> set (exptGroups t) \<Longrightarrow> set cols \<subseteq> set t"
  by (auto simp: exptGroups_def)

lemma count_at_map: "g \<in> set index \<Longrightarrow> count_at (map (\<lambda>g. (g, F g)) index) g = F g"
  by (induction index) (auto simp: count_at_def)

lemma align_left_labels: "map fst (align_left index cs) = index"
  by (simp add: align_left_def comp_def)

lemma align_left_counts:
  "map snd (align_left index cs) = map (count_at (align_left index cs)) index"
  by (simp add: align_left_def comp_def count_at_map)

lemma loadCounts_aligned:
  assumes "loadCounts readCountsFile index counts_file_list = Inr t"
  shows "\<forall>(k, s) \<in> set t. map fst s = index \<and> map snd s = map (count_at s) index"
proof -
  from assms have "t = map (\<lambda>(c, r, f). ((c, r, f), align_left index (readCountsFile f)))
               (sort counts_file_list)"
    by (simp add: loadCounts_def split: if_splits)
  then show ?thesis
    using align_left_labels align_left_counts by fastforce
qed

lemma table_index_aligned:
  "t \<noteq> [] \<Longrightarrow> \<forall>(k, s) \<in> set t. map fst s = index \<and> P s \<Longrightarrow> table_index t = index"
  by (cases t) (auto simp: table_index_def)

lemma group_total:
  assumes "\<forall>(k, s) \<in> set cols. map snd s = map (count_at s) index"
  shows "sum_list (map (\<lambda>g. \<Sum>(k, s)\<leftarrow>cols. count_at s g) index) =
         (\<Sum>(k, s)\<leftarrow>cols. sum_list (map snd s))"
proof -
  have "sum_list (map (\<lambda>g. \<Sum>(k, s)\<leftarrow>cols. count_at s g) index) =
        (\<Sum>g\<leftarrow>index. \<Sum>ks\<leftarrow>cols. count_at (snd ks) g)"
    by (simp add: case_prod_unfold)
  also have "\<dots> = (\<Sum>ks\<leftarrow>cols. \<Sum>g\<leftarrow>index. count_at (snd ks) g)"
    by (rule sum_list_swap)
  also have "\<dots> = (\<Sum>ks\<leftarrow>cols. sum_list (map snd (snd ks)))"
  proof -
    have "map (\<lambda>ks. \<Sum>g\<leftarrow>index. count_at (snd ks) g) cols = map (\<lambda>ks. sum_list (map snd (snd ks))) cols"
    proof (rule map_cong [OF refl])
      fix ks assume "ks \<in> set cols"
      with assms have "map snd (snd ks) = map (count_at (snd ks)) index" by (cases ks) auto
      then show "(\<Sum>g\<leftarrow>index. count_at (snd ks) g) = sum_list (map snd (snd ks))" by simp
    qed
    then show ?thesis by (rule arg_cong [where f = sum_list])
  qed
  finally show ?thesis by (simp add: case_prod_unfold)
qed


lemma merged_totals:
  assumes al: "\<forall>(k, s) \<in> set t. map fst s = index \<and> map snd s = map (count_at s) index"
  shows "map snd (column_totals (mergedCountsTable t)) =
         map (\<lambda>(k2, cols). \<Sum>(k, s)\<leftarrow>cols. sum_list (map snd s)) (exptGroups t)"
proof (cases "t = []")
  case True
  then show ?thesis
    by (simp add: column_totals_def mergedCountsTable_def exptGroups_def)
next
  case False
  from table_index_aligned [OF False al] have ti: "table_index t = index" .
  have "map snd (column_totals (mergedCountsTable t)) =
        map (\<lambda>(k2, cols). sum_list (map (\<lambda>g. \<Sum>(k, s)\<leftarrow>cols. count_at s g) index)) (exptGroups t)"
    by (simp add: column_totals_def mergedCountsTable_def ti comp_def case_prod_unfold)
  also have "\<dots> = map (\<lambda>(k2, cols). \<Sum>(k, s)\<leftarrow>cols. sum_list (map snd s)) (exptGroups t)"
  proof (rule map_cong [OF refl])
    fix x assume x: "x \<in> set (exptGroups t)"
    obtain k2 cols where kc: "x = (k2, cols)" by (cases x)
    with x have "set cols \<subseteq> set t" using exptGroups_subset by blast
    with al have "\<forall>(k, s) \<in> set cols. map snd s = map (count_at s) index" by auto
    from group_total [OF this] kc
    show "(case x of (k2, cols) \<Rightarrow> sum_list (map (\<lambda>g. \<Sum>(k, s)\<leftarrow>cols. count_at s g) index)) =
          (case x of (k2, cols) \<Rightarrow> \<Sum>(k, s)\<leftarrow>cols. sum_list (map snd s))"
      by simp
  qed
  finally show ?thesis .
qed



lemma unat_sum_list:
  "sum_list (map unat ws) < 2 ^ 64 \<Longrightarrow> unat (sum_list ws) = sum_list (map unat ws)"
  for ws :: "64 word list"
proof (induction ws)
  case Nil
  then show ?case by simp
next
  case (Cons w ws)
  from Cons.prems have less: "unat w + sum_list (map unat ws) < 2 ^ 64"
    by (simp only: list.map sum_list.Cons)
  then have "sum_list (map unat ws) < 2 ^ 64" by linarith
  with Cons.IH have ih: "unat (sum_list ws) = sum_list (map unat ws)" .
  have len: "(2::nat) ^ LENGTH(64) = 2 ^ 64" by (simp only: len_num0 len_bit0 len_num1) simp
  from less ih have "unat w + unat (sum_list ws) < 2 ^ LENGTH(64)"
    by (simp only: len)
  then have "unat (w + sum_list ws) = unat w + unat (sum_list ws)"
    by (simp only: unat_add_lem)
  with ih show ?case by (simp only: list.map sum_list.Cons)
qed

lemma sint_small:
  "unat w < 2 ^ 63 \<Longrightarrow> sint w = int (unat w)" for w :: "64 word"
proof -
  assume a: "unat w < 2 ^ 63"
  have u: "uint w = int (unat w)" by (rule uint_nat)
  from a have "int (unat w) < int (2 ^ 63)" by (rule iffD2 [OF of_nat_less_iff])
  then have lt: "int (unat w) < 2 ^ 63" by (simp only: of_nat_power of_nat_numeral)
  have ge: "- (2 ^ 63) \<le> int (unat w)"
  proof -
    have "(0::int) \<le> int (unat w)" by (rule of_nat_0_le_iff)
    moreover have "- (2 ^ 63) \<le> (0::int)" by simp
    ultimately show ?thesis by (rule order_trans [rotated])
  qed
  have "signed_take_bit 63 (int (unat w)) = int (unat w)"
    using ge lt by (rule signed_take_bit_int_eq_self)
  moreover have "sint w = signed_take_bit (LENGTH(64) - Suc 0) (uint w)"
    by (rule sint_uint)
  moreover have "LENGTH(64) - Suc 0 = 63" by simp
  ultimately show ?thesis by (simp only: u)
qed

lemma sum_list_filter_le:
  "sum_list (map f (filter P xs)) \<le> sum_list (map f xs)" for f :: "'a \<Rightarrow> nat"
  by (induction xs) auto

lemma exptGroups_filter:
  "(k2, cols) \<in> set (exptGroups t) \<Longrightarrow> \<exists>P. cols = filter P t"
  by (auto simp: exptGroups_def)

lemma sint_total:
  fixes ws :: "64 word list"
  assumes "sum_list (map unat ws) < 2 ^ 63"
  shows "sint (sum_list ws) = int (sum_list (map unat ws))"
proof -
  from assms have "sum_list (map unat ws) < 2 ^ 64" by simp
  from unat_sum_list [OF this] have u: "unat (sum_list ws) = sum_list (map unat ws)" .
  with assms have "unat (sum_list ws) < 2 ^ 63" by (simp only:)
  from sint_small [OF this] u show ?thesis by (simp only:)
qed

lemma sum_list_int: "sum_list (map (\<lambda>x. int (f x)) xs) = int (sum_list (map f xs))"
  by (induction xs) simp_all

text \<open>
  C8. Merging the raw count columns by (condition, replicate) conserves reads: the sum of the
  totals of the merged columns equals the sum of the totals of the raw columns. This holds
  for every loaded counts table in the \<^verbatim>\<open>int64\<close> arithmetic of the tables, and for the
  totals read as integers whenever the reads of the whole table (counts not negative) add up
  to less than \<open>2^63\<close>, so that no total wraps around.
\<close>

theorem merge_conserves_reads:
  assumes ld: "loadCounts readCountsFile index counts_file_list = Inr countsTable"
  shows "sum_list (map snd (column_totals (mergedCountsTable countsTable))) =
         sum_list (map snd (column_totals countsTable))
       \<and> ((\<Sum>(k, s)\<leftarrow>countsTable. \<Sum>(g, c)\<leftarrow>s. unat c) < 2 ^ 63 \<longrightarrow>
            (\<Sum>(k, total)\<leftarrow>column_totals (mergedCountsTable countsTable). sint total) =
            (\<Sum>(k, total)\<leftarrow>column_totals countsTable. sint total))"
proof -
  let ?t = countsTable
  let ?T = "\<lambda>ks :: exptkey \<times> counts_column. sum_list (map snd (snd ks))"
  let ?N = "\<lambda>ks :: exptkey \<times> counts_column. sum_list (map unat (map snd (snd ks)))"
  let ?G = "\<lambda>kc :: (string \<times> string) \<times> (exptkey \<times> counts_column) list. sum_list (map ?T (snd kc))"
  from loadCounts_aligned [OF ld]
  have al: "\<forall>(k, s) \<in> set ?t. map fst s = index \<and> map snd s = map (count_at s) index" .
  have mt: "map snd (column_totals (mergedCountsTable ?t)) = map ?G (exptGroups ?t)"
    using merged_totals [OF al] by (simp add: case_prod_unfold)
  have rt: "map snd (column_totals ?t) = map ?T ?t"
    by (simp add: column_totals_def case_prod_unfold comp_def)
  have groupsT: "sum_list (map ?G (exptGroups ?t)) = sum_list (map ?T ?t)"
    using sum_list_groups [of ?T ?t] by (simp add: case_prod_unfold)
  have word: "sum_list (map snd (column_totals (mergedCountsTable ?t))) =
              sum_list (map snd (column_totals ?t))"
    by (simp only: mt rt groupsT)
  have ints: "(\<Sum>(k, total)\<leftarrow>column_totals (mergedCountsTable ?t). sint total) =
              (\<Sum>(k, total)\<leftarrow>column_totals ?t. sint total)"
    if bound: "(\<Sum>(k, s)\<leftarrow>?t. \<Sum>(g, c)\<leftarrow>s. unat c) < 2 ^ 63"
  proof -
    have "map (\<lambda>(k, s). \<Sum>(g, c)\<leftarrow>s. unat c) ?t = map ?N ?t"
      by (simp add: case_prod_unfold comp_def)
    with bound have U: "sum_list (map ?N ?t) < 2 ^ 63" by (simp only:)
    have colN: "sint (?T ks) = int (?N ks)" if "ks \<in> set ?t" for ks
    proof -
      from that have "?N ks \<in> ?N ` set ?t" by (rule imageI [of ks "set ?t" ?N])
      then have "?N ks \<in> set (map ?N ?t)" by (simp only: set_map)
      then have "?N ks \<le> sum_list (map ?N ?t)" by (rule member_le_sum_list) (rule le0)
      with U have "?N ks < 2 ^ 63" by linarith
      then show ?thesis by (rule sint_total)
    qed
    have grpN: "sint (?G kc) = int (sum_list (map ?N (snd kc)))" if "kc \<in> set (exptGroups ?t)" for kc
    proof -
      obtain k2 cols where kc: "kc = (k2, cols)" by (cases kc)
      with that obtain P where P: "cols = filter P ?t" using exptGroups_filter by blast
      have sub: "set cols \<subseteq> set ?t" unfolding P by (rule filter_is_subset)
      have un: "map unat (map ?T cols) = map ?N cols"
      proof -
        have "map (\<lambda>ks. unat (?T ks)) cols = map ?N cols"
        proof (rule map_cong [OF refl])
          fix ks assume "ks \<in> set cols"
          with sub have "ks \<in> set ?t" by blast
          from colN [OF this] have "sint (?T ks) = int (?N ks)" .
          have "?N ks \<in> ?N ` set ?t"
            using \<open>ks \<in> set ?t\<close> by (rule imageI [of ks "set ?t" ?N])
          then have "?N ks \<in> set (map ?N ?t)" by (simp only: set_map)
          then have "?N ks \<le> sum_list (map ?N ?t)" by (rule member_le_sum_list) (rule le0)
          with U have "?N ks < 2 ^ 63" by linarith
          then have "?N ks < 2 ^ 64" by simp
          then show "unat (?T ks) = ?N ks" by (rule unat_sum_list)
        qed
        then show ?thesis by (simp only: map_map comp_def)
      qed
      have "sum_list (map ?N cols) \<le> sum_list (map ?N ?t)"
        unfolding P by (rule sum_list_filter_le)
      with U have "sum_list (map ?N cols) < 2 ^ 63" by linarith
      then have "sum_list (map unat (map ?T cols)) < 2 ^ 63" by (simp only: un)
      from sint_total [OF this] have "sint (sum_list (map ?T cols)) = int (sum_list (map ?N cols))"
        by (simp only: un)
      then show ?thesis by (simp only: kc snd_conv)
    qed
    have "(\<Sum>(k, total)\<leftarrow>column_totals (mergedCountsTable ?t). sint total) =
          sum_list (map sint (map snd (column_totals (mergedCountsTable ?t))))"
      by (simp add: case_prod_unfold comp_def)
    also have "\<dots> = sum_list (map (\<lambda>kc. sint (?G kc)) (exptGroups ?t))"
      by (simp only: mt map_map comp_def)
    also have "map (\<lambda>kc. sint (?G kc)) (exptGroups ?t) =
               map (\<lambda>kc. int (sum_list (map ?N (snd kc)))) (exptGroups ?t)"
      by (rule map_cong [OF refl]) (rule grpN)
    also have "sum_list (map (\<lambda>kc. int (sum_list (map ?N (snd kc)))) (exptGroups ?t)) =
               int (sum_list (map (\<lambda>kc. sum_list (map ?N (snd kc))) (exptGroups ?t)))"
      by (rule sum_list_int)
    also have "sum_list (map (\<lambda>kc. sum_list (map ?N (snd kc))) (exptGroups ?t)) = sum_list (map ?N ?t)"
      using sum_list_groups [of ?N ?t] by (simp add: case_prod_unfold)
    also have "int (sum_list (map ?N ?t)) = sum_list (map (\<lambda>ks. int (?N ks)) ?t)"
      by (rule sum_list_int [symmetric])
    also have "map (\<lambda>ks. int (?N ks)) ?t = map (\<lambda>ks. sint (?T ks)) ?t"
      by (rule map_cong [OF refl]) (rule colN [symmetric])
    also have "sum_list (map (\<lambda>ks. sint (?T ks)) ?t) =
               (\<Sum>(k, total)\<leftarrow>column_totals ?t. sint total)"
      by (simp add: column_totals_def case_prod_unfold comp_def)
    finally show ?thesis .
  qed
  from word ints show ?thesis by blast
qed

theorem merge_conserves_reads_witness:
  "loadCounts
     (\<lambda>f. if f = ''a.counts'' then [(''g1'', 3)]
          else if f = ''b.counts'' then [(''g1'', 4), (''g2'', 5)]
          else [(''g1'', 1), (''g2'', 2), (''g9'', 7)])
     [''g1'', ''g2'']
     [(''T0'', ''Rep1'', ''b.counts''), (''T0'', ''Rep1'', ''a.counts''), (''T0'', ''Rep2'', ''c.counts'')] =
   Inr [((''T0'', ''Rep1'', ''a.counts''), [(''g1'', 3), (''g2'', 0)]),
        ((''T0'', ''Rep1'', ''b.counts''), [(''g1'', 4), (''g2'', 5)]),
        ((''T0'', ''Rep2'', ''c.counts''), [(''g1'', 1), (''g2'', 2)])]
   \<and> sum_list (map snd (column_totals (mergedCountsTable
       [((''T0'', ''Rep1'', ''a.counts''), [(''g1'', 3), (''g2'', 0)]),
        ((''T0'', ''Rep1'', ''b.counts''), [(''g1'', 4), (''g2'', 5)]),
        ((''T0'', ''Rep2'', ''c.counts''), [(''g1'', 1), (''g2'', 2)])]))) = 15
   \<and> (\<Sum>(k, total)\<leftarrow>column_totals (mergedCountsTable
       [((''T0'', ''Rep1'', ''a.counts''), [(''g1'', 3), (''g2'', 0)]),
        ((''T0'', ''Rep1'', ''b.counts''), [(''g1'', 4), (''g2'', 5)]),
        ((''T0'', ''Rep2'', ''c.counts''), [(''g1'', 1), (''g2'', 2)])]). sint total) = 15"
proof -
  let ?rd = "\<lambda>f. if f = ''a.counts'' then [(''g1'', 3)]
          else if f = ''b.counts'' then [(''g1'', 4), (''g2'', 5)]
          else [(''g1'', 1), (''g2'', 2), (''g9'', 7 :: count)]"
  let ?T = "[((''T0'', ''Rep1'', ''a.counts''), [(''g1'', 3), (''g2'', 0)]),
        ((''T0'', ''Rep1'', ''b.counts''), [(''g1'', 4), (''g2'', 5)]),
        ((''T0'', ''Rep2'', ''c.counts''), [(''g1'', 1), (''g2'', 2 :: count)])]"
  have ld: "loadCounts ?rd [''g1'', ''g2'']
     [(''T0'', ''Rep1'', ''b.counts''), (''T0'', ''Rep1'', ''a.counts''), (''T0'', ''Rep2'', ''c.counts'')] =
     Inr ?T"
    by (simp add: loadCounts_def align_left_def count_at_def)
  have bound: "(\<Sum>(k, s)\<leftarrow>?T. \<Sum>(g, c)\<leftarrow>s. unat c) < 2 ^ 63"
    by simp
  have raw: "sum_list (map snd (column_totals ?T)) = 15"
    by (simp add: column_totals_def)
  have rawint: "(\<Sum>(k, total)\<leftarrow>column_totals ?T. sint total) = 15"
    by (simp add: column_totals_def)
  from merge_conserves_reads [OF ld] bound raw rawint ld show ?thesis
    by (simp only:)
qed

text \<open>
  The totals do wrap around: two files of one condition and replicate with \<open>2^62\<close> reads
  of one guide each give a negative merged total, while the two raw totals are positive.
\<close>

lemma merged_total_wraps:
  "map (\<lambda>(k, total). sint total) (column_totals (mergedCountsTable
     [((''T0'', ''Rep1'', ''a.counts''), [(''g1'', 4611686018427387904), (''g2'', 1)]),
      ((''T0'', ''Rep1'', ''b.counts''), [(''g1'', 4611686018427387904), (''g2'', 2)])])) =
     [- 9223372036854775805]
   \<and> map (\<lambda>(k, total). sint total) (column_totals
     [((''T0'', ''Rep1'', ''a.counts''), [(''g1'', 4611686018427387904), (''g2'', 1)]),
      ((''T0'', ''Rep1'', ''b.counts''), [(''g1'', 4611686018427387904), (''g2'', 2 :: count)])]) =
     [4611686018427387905, 4611686018427387906]"
  by (simp add: column_totals_def mergedCountsTable_def exptGroups_def table_index_def count_at_def)

subsection \<open>Averaging replicates\<close>

lemma lookup_cell_map:
  "g \<in> set index \<Longrightarrow> lookup_cell (map (\<lambda>g. (g, F g)) index) g = F g"
  by (induction index) (auto simp: lookup_cell_def)

lemma map_of_dict_set: "map_of (dict_set k v d) = (map_of d)(k \<mapsto> v)"
  by (induction d) (auto simp: fun_eq_iff)

lemma repCols_dict_set:
  "p \<noteq> p' \<Longrightarrow> repCols p (dict_set (p', l) v d) = repCols p d"
  by (induction d) (auto simp: repCols_def)

lemma fold_average_other:
  "p \<notin> set ps \<Longrightarrow>
   map_of (fold (\<lambda>phenotype d. dict_set (phenotype, l) (row_means (repCols phenotype d)) d) ps d) (p, l)
     = map_of d (p, l)
   \<and> repCols p (fold (\<lambda>phenotype d. dict_set (phenotype, l) (row_means (repCols phenotype d)) d) ps d)
     = repCols p d"
  by (induction ps arbitrary: d) (auto simp: map_of_dict_set repCols_dict_set)

lemma fold_average:
  "distinct ps \<Longrightarrow> p \<in> set ps \<Longrightarrow>
   map_of (fold (\<lambda>phenotype d. dict_set (phenotype, l) (row_means (repCols phenotype d)) d) ps d) (p, l)
     = Some (row_means (repCols p d))"
proof (induction ps arbitrary: d)
  case Nil
  then show ?case by simp
next
  case (Cons a ps)
  show ?case
  proof (cases "p = a")
    case True
    with Cons.prems have "p \<notin> set ps" by simp
    from fold_average_other [OF this] True show ?thesis
      by (simp add: map_of_dict_set)
  next
    case False
    with Cons.prems have "distinct ps" "p \<in> set ps" by auto
    from Cons.IH [OF this] False show ?thesis
      by (simp add: repCols_dict_set)
  qed
qed

lemma lookup_row_means:
  "g \<in> set (frame_index cols) \<Longrightarrow>
   lookup_cell (row_means cols) g = mean_noskip (map (\<lambda>(k, s). lookup_cell s g) cols)"
  unfolding row_means_def by (rule lookup_cell_map)

text \<open>
  C4. When replicates are averaged (more than one replicate), every phenotype gets a column
  labelled \<open>ave_\<close> followed by all replicate ids joined by \<open>_\<close> (for Rep1 and Rep2:
  \<open>ave_Rep1_Rep2\<close>). Its value for a guide is the arithmetic mean of the guide's scores
  over the replicate columns of the phenotype, and it is missing as soon as one of these
  scores is missing: the scores 0.5 and NaN average to NaN.
\<close>

theorem replicate_average:
  assumes "replicateList counts_file_list = Inr replicates"
    and "phenotypeList condition_tuples = Inr phenotypes"
    and "length replicates > 1"
    and "phenotype \<in> set phenotypes"
    and "g \<in> set (frame_index (repCols phenotype phenotypeScoreDict))"
    and "scores = map (\<lambda>(k, s). lookup_cell s g) (repCols phenotype phenotypeScoreDict)"
  shows "(\<exists>ave. map_of (averageReplicates replicates phenotypes phenotypeScoreDict)
               (phenotype, ''ave_'' @ join ''_'' replicates) = Some ave
           \<and> lookup_cell ave g =
               (if None \<in> set scores then None
                else Some (sum_list (map the scores) / real (length scores))))
           \<and> mean_noskip [Some (1/2), None] = None
           \<and> ''ave_'' @ join ''_'' [''Rep1'', ''Rep2''] = ''ave_Rep1_Rep2''"
proof -
  let ?cols = "repCols phenotype phenotypeScoreDict"
  have "distinct phenotypes"
    using assms(2) by (auto simp: phenotypeList_def split: if_splits)
  from fold_average [OF this assms(4)]
  have m: "map_of (averageReplicates replicates phenotypes phenotypeScoreDict)
             (phenotype, ''ave_'' @ join ''_'' replicates) = Some (row_means ?cols)"
    using assms(3) by (simp add: averageReplicates_def)
  have "?cols \<noteq> []" using assms(5) by (auto simp: frame_index_def)
  then have "scores \<noteq> []" by (simp add: assms(6))
  then have "lookup_cell (row_means ?cols) g =
      (if None \<in> set scores then None else Some (sum_list (map the scores) / real (length scores)))"
    using lookup_row_means [OF assms(5)] by (simp add: assms(6) mean_noskip_def mean_def)
  with m show ?thesis by (simp add: mean_noskip_def)
qed

theorem replicate_average_witness:
  "\<exists>ave. map_of (averageReplicates [''Rep1'', ''Rep2''] [''rho'', ''gamma'']
        [((''gamma'', ''Rep1''), [(''g1'', Some 1), (''g2'', Some (1/2))]),
         ((''rho'', ''Rep1''), [(''g1'', Some 5), (''g2'', Some 6)]),
         ((''gamma'', ''Rep2''), [(''g1'', Some 2), (''g2'', None)]),
         ((''rho'', ''Rep2''), [(''g1'', Some 7), (''g2'', Some 8)])])
       (''gamma'', ''ave_Rep1_Rep2'') = Some ave
     \<and> lookup_cell ave ''g1'' = Some (3/2)"
proof -
  let ?d = "[((''gamma'', ''Rep1''), [(''g1'', Some 1), (''g2'', Some (1/2))]),
         ((''rho'', ''Rep1''), [(''g1'', Some 5), (''g2'', Some 6)]),
         ((''gamma'', ''Rep2''), [(''g1'', Some 2), (''g2'', None)]),
         ((''rho'', ''Rep2''), [(''g1'', Some 7), (''g2'', Some 8)])] :: (colname \<times> series) list"
  have r: "repCols ''gamma'' ?d =
      [((''gamma'', ''Rep1''), [(''g1'', Some 1), (''g2'', Some (1/2))]),
       ((''gamma'', ''Rep2''), [(''g1'', Some 2), (''g2'', None)])]"
    by (simp add: repCols_def)
  have h0: "replicateList [(''T0'', ''Rep2'', ''b.counts''), (''T0'', ''Rep1'', ''a.counts''),
      (''untreated'', ''Rep1'', ''c.counts''), (''untreated'', ''Rep2'', ''d.counts'')] =
      Inr [''Rep1'', ''Rep2'']"
    by (simp add: replicateList_def)
  have h2: "phenotypeList [(''gamma'', ''T0'', ''untreated''), (''rho'', ''untreated'', ''treated''),
      (''gamma'', ''T0'', ''treated'')] = Inr [''rho'', ''gamma'']"
    by (simp add: phenotypeList_def)
  have h1: "length [''Rep1'', ''Rep2''] > 1" by simp
  have h3: "''gamma'' \<in> set [''rho'', ''gamma'']" by simp
  have h4: "''g1'' \<in> set (frame_index (repCols ''gamma'' ?d))"
    unfolding r by (simp add: frame_index_def)
  have h5: "[Some 1, Some 2] = map (\<lambda>(k, s). lookup_cell s ''g1'') (repCols ''gamma'' ?d)"
    unfolding r by (simp add: lookup_cell_def)
  from replicate_average [OF h0 h2 h1 h3 h4 h5] show ?thesis by simp
qed

text \<open>
  C5. The specification: with a pseudogene mode that is none of off, manual, auto, and at
  least one analysis requested, the pipeline warns, goes on without pseudogenes and
  completes. The code prints the warning and then concatenates the empty list of pseudogene
  tables, which raises: the run ends there.
\<close>

theorem unrecognized_pseudogene_mode_raises:
  "pseudogeneStage
     \<lparr>generate_pseudogene_dist = ''automatic'', analyses = [(''calculate_ave'', [3])],
      num_pseudogenes = 0, pseudogene_size = 0\<rparr> (\<lambda>n. 0)
     [(''n1'', [Some 0]), (''g1'', [Some 1])]
     [(''n1'', \<lparr>sublibrary = Some ''s'', gene = ''negative_control'', transcripts = ''na'', sequence = ''A''\<rparr>),
      (''g1'', \<lparr>sublibrary = Some ''s'', gene = ''GENE1'', transcripts = ''T1'', sequence = ''C''\<rparr>)] =
   ([''Generating a pseudogene distribution from negative controls'',
     ''generate_pseudogene_dist parameter not recognized, defaulting to off''],
    Inl (ValueError ''No objects to concatenate''))"
  by (simp add: pseudogeneStage_def lower_def lower_char_def pd_concat_def)

text \<open>
  The same holds for every such mode: the warning is printed, and the concatenation raises.
\<close>

lemma unrecognized_mode_always_raises:
  assumes "generate_pseudogene_dist p \<noteq> ''off''" and "analyses p \<noteq> []"
    and "lower (generate_pseudogene_dist p) \<notin> {''manual'', ''auto''}"
  shows "pseudogeneStage p rand pt lib =
   ([''Generating a pseudogene distribution from negative controls'',
     ''generate_pseudogene_dist parameter not recognized, defaulting to off''],
    Inl (ValueError ''No objects to concatenate''))"
  using assms by (simp add: pseudogeneStage_def pd_concat_def)

subsection \<open>Ranking a column without missing values\<close>

lemma split_run_map:
  assumes "\<And>a b. c' (f a) (f b) = c a b"
  shows "split_run c' (f p) (map f xs) =
         (case split_run c p xs of (run, rest) \<Rightarrow> (map f run, map f rest))"
  by (induction xs arbitrary: p) (auto simp: assms split: prod.splits)

lemma count_run_map:
  assumes "\<And>a b. islt' (f a) (f b) = islt a b"
  shows "count_run islt' (map f xs) =
         (case count_run islt xs of (run, rest) \<Rightarrow> (map f run, map f rest))"
proof (cases xs)
  case Nil
  then show ?thesis by simp
next
  case (Cons x0 ys)
  show ?thesis
  proof (cases ys)
    case Nil
    with Cons show ?thesis by simp
  next
    case (Cons x1 zs)
    have d: "split_run (\<lambda>x prev. islt' x prev) (f x1) (map f zs) =
             (case split_run (\<lambda>x prev. islt x prev) x1 zs of (run, rest) \<Rightarrow> (map f run, map f rest))"
      by (rule split_run_map) (simp add: assms)
    have a: "split_run (\<lambda>x prev. \<not> islt' x prev) (f x1) (map f zs) =
             (case split_run (\<lambda>x prev. \<not> islt x prev) x1 zs of (run, rest) \<Rightarrow> (map f run, map f rest))"
      by (rule split_run_map) (simp add: assms)
    show ?thesis
      using \<open>xs = x0 # ys\<close> Cons
      by (simp add: assms a d rev_map split: prod.splits)
  qed
qed

lemma bisect_map:
  "(\<forall>a b. islt' (f a) (f b) = islt a b) \<Longrightarrow> r \<le> length xs \<Longrightarrow>
   bisect islt' (f pivot) (map f xs) l r = bisect islt pivot xs l r"
proof (induction islt pivot xs l r rule: bisect.induct)
  case (1 islt pivot xs l r)
  note c = "1.prems"(1) and rlen = "1.prems"(2)
  show ?case
  proof (cases "l < r")
    case False
    then show ?thesis
      by (simp add: bisect.simps [of _ _ _ l r])
  next
    case True
    let ?p = "l + (r - l) div 2"
    from True rlen have p: "?p < length xs" "?p \<le> length xs" "?p < r" by auto
    have cmp: "islt' (f pivot) (map f xs ! ?p) = islt pivot (xs ! ?p)"
      using p(1) c by simp
    show ?thesis
    proof (cases "islt pivot (xs ! ?p)")
      case lt: True
      have "bisect islt' (f pivot) (map f xs) l r = bisect islt' (f pivot) (map f xs) l ?p"
        using True lt cmp by (subst bisect.simps) (simp add: Let_def)
      also have "\<dots> = bisect islt pivot xs l ?p"
        by (rule "1.IH"(1) [OF True refl lt c p(2)])
      also have "\<dots> = bisect islt pivot xs l r"
        using True lt by (subst (2) bisect.simps) (simp add: Let_def)
      finally show ?thesis .
    next
      case ge: False
      have "bisect islt' (f pivot) (map f xs) l r = bisect islt' (f pivot) (map f xs) (?p + 1) r"
        using True ge cmp by (subst bisect.simps) (simp add: Let_def)
      also have "\<dots> = bisect islt pivot xs (?p + 1) r"
        by (rule "1.IH"(2) [OF True refl ge c rlen])
      also have "\<dots> = bisect islt pivot xs l r"
        using True ge by (subst (2) bisect.simps) (simp add: Let_def)
      finally show ?thesis .
    qed
  qed
qed

lemma binary_insert_map:
  assumes "\<forall>a b. islt' (f a) (f b) = islt a b"
  shows "binary_insert islt' (f pivot) (map f run) = map f (binary_insert islt pivot run)"
proof -
  have "bisect islt' (f pivot) (map f run) 0 (length run) = bisect islt pivot run 0 (length run)"
    using bisect_map [of islt' f islt "length run" run pivot 0] assms by simp
  then show ?thesis
    by (simp add: binary_insert_def Let_def take_map drop_map)
qed

lemma binarysort_map:
  assumes "\<forall>a b. islt' (f a) (f b) = islt a b"
  shows "binarysort islt' (map f run) (map f rest) = map f (binarysort islt run rest)"
  unfolding binarysort_def
proof (induction rest arbitrary: run)
  case Nil
  then show ?case by simp
next
  case (Cons x rest)
  have "binary_insert islt' (f x) (map f run) = map f (binary_insert islt x run)"
    using binary_insert_map [of islt' f islt x run] assms by simp
  with Cons [of "binary_insert islt x run"] show ?case by simp
qed

lemma py_sort_map:
  assumes "\<forall>a b. islt' (f a) (f b) = islt a b"
  shows "py_sort islt' (map f xs) = map f (py_sort islt xs)"
proof -
  obtain run rest where cr: "count_run islt xs = (run, rest)"
    by (cases "count_run islt xs")
  have "count_run islt' (map f xs) = (map f run, map f rest)"
    using count_run_map [of islt' f islt xs] assms cr by simp
  moreover have "binarysort islt' (map f run) (map f rest) = map f (binarysort islt run rest)"
    using binarysort_map [of islt' f islt run rest] assms by simp
  ultimately show ?thesis
    by (simp add: py_sort_def cr)
qed

lemma sorted_abs_reverse_Some:
  "sorted_abs_reverse less_abs_cell (map Some vals) =
   map Some (sorted_abs_reverse less_abs_real vals)"
proof -
  have "\<forall>a b. less_abs_cell (Some a) (Some b) = less_abs_real a b"
    by (simp add: less_abs_cell_def less_abs_real_def)
  then have "py_sort less_abs_cell (map Some (rev vals)) = map Some (py_sort less_abs_real (rev vals))"
    using py_sort_map [of less_abs_cell Some less_abs_real "rev vals"] by simp
  then show ?thesis
    by (simp add: sorted_abs_reverse_def rev_map)
qed

text \<open>
  On a column without missing values \<^verbatim>\<open>calculate_nth\<close> does rank by absolute value: it
  gives the entry at place N of the scores in descending order of absolute value, and a
  missing value when there are fewer than N scores.
\<close>

lemma nth_best_all_valid:
  assumes "1 \<le> N"
  shows "nth_best N (map Some vals) =
         Inr (if nat N \<le> length vals
              then Some (sorted_abs_reverse less_abs_real vals ! (nat N - 1)) else None)"
proof -
  have len: "length (sorted_abs_reverse less_abs_real vals) = length vals"
    using sorted_abs_reverse_mset [of less_abs_real vals] by (metis size_mset)
  show ?thesis
  proof (cases "N \<le> int (length vals)")
    case True
    then have "nat (N - 1) < length vals" using assms by linarith
    moreover have "nat (N - 1) = nat N - 1" using assms by linarith
    ultimately show ?thesis
      using True assms by (simp add: nth_best_def sorted_abs_reverse_Some py_index_def len)
  next
    case False
    then show ?thesis by (simp add: nth_best_def)
  qed
qed

end
